theory Spec2Isabelle
  imports Main
begin

section \<open>Data model\<close>

text \<open>
  Timestamps are seconds on the clock of the process (\<open>datetime.utcnow()\<close>, the
  database's \<open>now()\<close>); a nullable column is an \<open>option\<close>.
\<close>

type_synonym datetime = int

text \<open>
  \<open>models/api_key.py\<close>: the mapped columns of table \<open>api_keys\<close>. The primary key
  \<open>id\<close> is called \<open>key_id\<close> here (\<open>id\<close> is the identity function of HOL).
\<close>

record APIKey =
  key_id :: string
  key_hash :: string
  name :: string
  description :: "string option"
  created_at :: "datetime option"
  last_used :: "datetime option"
  is_active :: bool
  rate_limit :: int
  usage_count :: int

text \<open>
  A Python instance of the mapped class, as the session holds it: the mapped columns and
  the plain instance attribute \<open>last_used_at\<close> that \<open>increment_usage\<close> assigns.
  No column of the table is called \<open>last_used_at\<close>, so no commit writes it.
\<close>

record APIKey_obj = APIKey +
  last_used_at :: "datetime option"

definition load :: "APIKey \<Rightarrow> APIKey_obj" where
  "load row = APIKey.extend row (APIKey_obj.fields None)"

text \<open>
  \<open>schemas.py\<close>: the request and the response of key creation. The description is
  \<open>Optional[str]\<close> in the request and \<open>str\<close> in the response.
\<close>

datatype APIKeyRequest = APIKeyRequest (req_name: string) (req_description: "string option")

datatype APIKeyResponse = APIKeyResponse
  (resp_id: string) (resp_name: string) (resp_key: string)
  (resp_description: string) (resp_created_at: datetime)
  (resp_rate_limit: int) (resp_usage_count: int)

text \<open>
  The optional Redis client. \<open>entries\<close> is the key space; \<open>down\<close> says that the
  server cannot be reached, so that every command raises (the code catches it each time).
  The time to live given to \<open>setex\<close> is not modelled: an entry that expired is an
  entry that is absent from \<open>entries\<close>.
\<close>

record redis =
  entries :: "string \<rightharpoonup> string"
  down :: bool

text \<open>
  The exceptions that leave \<open>create_api_key\<close>: the commit's IntegrityError and the
  ValidationError of the response model.
\<close>

datatype create_error = IntegrityError | ValidationError

section \<open>Strings and identifiers\<close>

text \<open>\<open>'%x'\<close> formatting of one nibble, and the 32 digits of \<open>uuid.UUID.hex\<close>.\<close>

definition hex_digit :: "nat \<Rightarrow> char" where
  "hex_digit n = ''0123456789abcdef'' ! (n mod 16)"

definition uuid_hex :: "nat \<Rightarrow> string" where
  "uuid_hex u = map (\<lambda>i. hex_digit (u div 16 ^ (31 - i))) [0..<32]"

text \<open>\<open>str(bool)\<close>.\<close>

definition str_bool :: "bool \<Rightarrow> string" where
  "str_bool b = (if b then ''True'' else ''False'')"

text \<open>\<open>s.split(c, n)\<close> for a separator of one character: at most \<open>n\<close> cuts, from the left.\<close>

fun split_once :: "char \<Rightarrow> string \<Rightarrow> (string \<times> string) option" where
  "split_once c [] = None"
| "split_once c (x # xs) =
     (if x = c then Some ([], xs)
      else (case split_once c xs of None \<Rightarrow> None | Some (a, b) \<Rightarrow> Some (x # a, b)))"

fun split_max :: "char \<Rightarrow> nat \<Rightarrow> string \<Rightarrow> string list" where
  "split_max c 0 s = [s]"
| "split_max c (Suc n) s =
     (case split_once c s of None \<Rightarrow> [s] | Some (a, b) \<Rightarrow> a # split_max c n b)"

text \<open>
  \<open>key_id, name, is_active = cached.split(":", 2)\<close>: the unpacking raises ValueError
  (here \<open>None\<close>) unless the split has exactly three parts.
\<close>

definition unpack3 :: "string \<Rightarrow> (string \<times> string \<times> string) option" where
  "unpack3 cached =
     (case split_max (CHR '':'') 2 cached of
        [a, b, c] \<Rightarrow> Some (a, b, c)
      | _ \<Rightarrow> None)"

section \<open>APIKeyManager (utils/auth.py)\<close>

text \<open>The queries of the manager; \<open>.first()\<close> is the first row that passes the filter.\<close>

definition query_by_id :: "APIKey list \<Rightarrow> string \<Rightarrow> APIKey option" where
  "query_by_id db kid = find (\<lambda>row. key_id row = kid) db"

definition query_by_hash_active :: "APIKey list \<Rightarrow> string \<Rightarrow> APIKey option" where
  "query_by_hash_active db h = find (\<lambda>row. key_hash row = h \<and> is_active row) db"

definition query_by_id_active :: "APIKey list \<Rightarrow> string \<Rightarrow> APIKey option" where
  "query_by_id_active db kid = find (\<lambda>row. key_id row = kid \<and> is_active row) db"

definition cache_key :: "string \<Rightarrow> string" where
  "cache_key h = ''api_key:'' @ h"

definition cache_value :: "APIKey \<Rightarrow> string" where
  "cache_value k = key_id k @ '':'' @ name k @ '':'' @ str_bool (is_active k)"

text \<open>
  \<open>self.redis.setex(f"api_key:{key_hash}", 3600, ...)\<close> inside \<open>try ... except
  Exception: pass\<close>, under \<open>if self.redis\<close>.
\<close>

definition cache_store :: "redis option \<Rightarrow> string \<Rightarrow> APIKey \<Rightarrow> redis option" where
  "cache_store r h k =
     (case r of
        None \<Rightarrow> None
      | Some c \<Rightarrow>
          if down c then Some c
          else Some (c\<lparr>entries := (entries c)(cache_key h \<mapsto> cache_value k)\<rparr>))"

text \<open>
  \<open>generate_api_key\<close>: \<open>token\<close> is the value of \<open>secrets.token_urlsafe(32)\<close>,
  \<open>pfx\<close> the configured \<open>api_key_prefix\<close>, \<open>sha256\<close> the hex digest of the encoded key.
\<close>

definition generate_api_key :: "(string \<Rightarrow> string) \<Rightarrow> string \<Rightarrow> string \<Rightarrow> string \<times> string" where
  "generate_api_key sha256 pfx token = (let k = pfx @ token in (k, sha256 k))"

text \<open>
  \<open>create_api_key\<close>: the outcome, and table and cache after the call. \<open>u\<close> is the
  integer of \<open>uuid.uuid4()\<close> and \<open>now\<close> the server default of \<open>created_at\<close>. The commit
  raises IntegrityError when the primary key or the unique \<open>key_hash\<close> is already in the
  table, and nothing is written. Otherwise the row is committed and the cache written, and
  only then is the response built: its constructor raises ValidationError for a field that
  is \<open>None\<close>, which the description of the request may be. Row and cache entry stay; the
  raw secret is not returned.
\<close>

definition create_api_key ::
  "(string \<Rightarrow> string) \<Rightarrow> string \<Rightarrow> datetime \<Rightarrow> APIKey list \<Rightarrow> redis option \<Rightarrow>
   APIKeyRequest \<Rightarrow> string \<Rightarrow> nat \<Rightarrow>
   (create_error + APIKeyResponse) \<times> APIKey list \<times> redis option" where
  "create_api_key sha256 pfx now db r request token u =
     (let (k, h) = generate_api_key sha256 pfx token;
          kid = ''ak_'' @ take 16 (uuid_hex u);
          api_key = \<lparr>key_id = kid, key_hash = h, name = req_name request,
                     description = req_description request, created_at = Some now,
                     last_used = None, is_active = True, rate_limit = 1000,
                     usage_count = 0\<rparr>
      in if find (\<lambda>row. key_id row = kid \<or> key_hash row = h) db \<noteq> None
         then (Inl IntegrityError, db, r)
         else (case (description api_key, created_at api_key) of
                 (Some d, Some t) \<Rightarrow>
                   Inr (APIKeyResponse (key_id api_key) (name api_key) k d t
                          (rate_limit api_key) (usage_count api_key))
               | _ \<Rightarrow> Inl ValidationError,
               db @ [api_key],
               cache_store r h api_key))"

text \<open>
  The cached branch of \<open>verify_api_key\<close>: \<open>Some kid\<close> when the code reaches the
  \<open>return\<close> inside the \<open>try\<close>, \<open>None\<close> when it goes on to the query by hash (no client,
  the command raised, no entry or an empty one, the unpacking raised, or the third field is
  not \<open>"True"\<close>).
\<close>

definition cached_id :: "redis option \<Rightarrow> string \<Rightarrow> string option" where
  "cached_id r h =
     (case r of
        None \<Rightarrow> None
      | Some c \<Rightarrow>
          if down c then None
          else (case entries c (cache_key h) of
                  None \<Rightarrow> None
                | Some cached \<Rightarrow>
                    if cached = [] then None
                    else (case unpack3 cached of
                            None \<Rightarrow> None
                          | Some (kid, nm, act) \<Rightarrow>
                              if act = ''True'' then Some kid else None)))"

text \<open>\<open>verify_api_key\<close>: the record found, and the cache after the call.\<close>

definition verify_api_key ::
  "(string \<Rightarrow> string) \<Rightarrow> APIKey list \<Rightarrow> redis option \<Rightarrow> string \<Rightarrow> APIKey option \<times> redis option" where
  "verify_api_key sha256 db r k =
     (let h = sha256 k in
      case cached_id r h of
        Some kid \<Rightarrow> (query_by_id db kid, r)
      | None \<Rightarrow>
          (let api_key = query_by_hash_active db h in
           (api_key, (case api_key of None \<Rightarrow> r | Some row \<Rightarrow> cache_store r h row))))"

text \<open>
  \<open>increment_usage\<close>: the object gets \<open>usage_count + 1\<close> and the attribute
  \<open>last_used_at\<close>; the commit writes the one mapped attribute that changed,
  \<open>usage_count\<close>, with the value the object holds, to the row of the object's primary key.
\<close>

definition increment_usage :: "datetime \<Rightarrow> APIKey list \<Rightarrow> APIKey_obj \<Rightarrow> APIKey_obj \<times> APIKey list" where
  "increment_usage now db api_key =
     (let obj = api_key\<lparr>usage_count := usage_count api_key + 1, last_used_at := Some now\<rparr>
      in (obj,
          map (\<lambda>row. if key_id row = key_id obj
                      then row\<lparr>usage_count := usage_count obj\<rparr> else row) db))"

section \<open>The credential dependency (api/dependencies.py)\<close>

datatype http_error = HTTPException (status_code: nat) (detail: string)

text \<open>Truth value of an \<open>Optional[str]\<close>: neither \<open>None\<close> nor the empty string.\<close>

definition truthy :: "string option \<Rightarrow> bool" where
  "truthy s = (case s of None \<Rightarrow> False | Some v \<Rightarrow> v \<noteq> [])"

definition startswith :: "string \<Rightarrow> string \<Rightarrow> bool" where
  "startswith s p = (take (length p) s = p)"

text \<open>\<open>s.replace(pat, "")\<close>: every occurrence of \<open>pat\<close>, from the left, is removed.\<close>

function remove_all :: "string \<Rightarrow> string \<Rightarrow> string" where
  "remove_all pat [] = []"
| "remove_all pat (x # xs) =
     (if pat \<noteq> [] \<and> startswith (x # xs) pat
      then remove_all pat (drop (length pat) (x # xs))
      else x # remove_all pat xs)"
  by pat_completeness auto
termination
  by (relation "measure (\<lambda>(pat, s). length s)") auto

text \<open>\<open>str.isspace\<close> on the code points below 256, and \<open>s.strip()\<close>.\<close>

definition is_space :: "char \<Rightarrow> bool" where
  "is_space c = ((of_char c :: nat) \<in> {9, 10, 11, 12, 13, 28, 29, 30, 31, 32, 133, 160})"

definition strip :: "string \<Rightarrow> string" where
  "strip s = rev (dropWhile is_space (rev (dropWhile is_space s)))"

text \<open>\<open>s[s.find(pat):]\<close> when \<open>pat in s\<close>, \<open>None\<close> when it is not.\<close>

fun from_first :: "string \<Rightarrow> string \<Rightarrow> string option" where
  "from_first pat [] = (if pat = [] then Some [] else None)"
| "from_first pat (x # xs) =
     (if startswith (x # xs) pat then Some (x # xs) else from_first pat xs)"

text \<open>
  Methods 1 to 5: the header value the dependency goes on with. \<open>headers_get\<close> is
  \<open>request.headers.get\<close>.
\<close>

definition find_auth_header ::
  "string option \<Rightarrow> string option \<Rightarrow> (string \<Rightarrow> string option) \<Rightarrow> string option" where
  "find_auth_header authorization api_key headers_get =
     (let h1 = authorization;
          h2 = (if \<not> truthy h1 \<and> truthy api_key
                then (case api_key of
                        None \<Rightarrow> h1
                      | Some k \<Rightarrow> if startswith k ''llm-router-'' then Some k
                                  else Some (''Bearer '' @ k))
                else h1);
          h3 = (if \<not> truthy h2 then headers_get ''authorization'' else h2);
          h4 = (if \<not> truthy h3 then headers_get ''Authorization'' else h3);
          h5 = (if \<not> truthy h4 then headers_get ''x-api-key'' else h4)
      in h5)"

definition extract_api_key_value :: "string \<Rightarrow> string option" where
  "extract_api_key_value auth_header =
     (if startswith auth_header ''Bearer ''
      then Some (strip (remove_all ''Bearer '' auth_header))
      else if startswith auth_header ''llm-router-''
      then Some (strip auth_header)
      else (case from_first ''llm-router-'' auth_header of
              None \<Rightarrow> None
            | Some rest \<Rightarrow> Some (strip rest)))"

text \<open>
  \<open>verify_api_key\<close> of the dependencies module, which \<open>get_current_api_key\<close> hands to
  the handlers. A rejection is an HTTPException and leaves table and cache as they were (the
  manager writes the cache only for a record it found active); a success returns the object,
  the table after \<open>increment_usage\<close> and the cache after the manager's lookup.
\<close>

definition get_current_api_key ::
  "(string \<Rightarrow> string) \<Rightarrow> datetime \<Rightarrow> APIKey list \<Rightarrow> redis option \<Rightarrow>
   string option \<Rightarrow> string option \<Rightarrow> (string \<Rightarrow> string option) \<Rightarrow>
   http_error + (APIKey_obj \<times> APIKey list \<times> redis option)" where
  "get_current_api_key sha256 now db r authorization api_key headers_get =
     (case find_auth_header authorization api_key headers_get of
        None \<Rightarrow> Inl (HTTPException 401 ''Missing authorization header'')
      | Some auth_header \<Rightarrow>
          if auth_header = [] then Inl (HTTPException 401 ''Missing authorization header'')
          else if \<not> truthy (extract_api_key_value auth_header)
          then Inl (HTTPException 401 ''Invalid authorization format'')
          else (case extract_api_key_value auth_header of
                  None \<Rightarrow> Inl (HTTPException 401 ''Invalid authorization format'')
                | Some api_key_value \<Rightarrow>
                    (case verify_api_key sha256 db r api_key_value of
                       (None, r') \<Rightarrow> Inl (HTTPException 401 ''Invalid or expired API key'')
                     | (Some api_key_record, r') \<Rightarrow>
                         if \<not> is_active api_key_record
                         then Inl (HTTPException 401 ''API key is disabled'')
                         else (case increment_usage now db (load api_key_record) of
                                 (obj, db') \<Rightarrow> Inr (obj, db', r')))))"

section \<open>Key revocation (api/auth.py)\<close>

text \<open>
  \<open>delete_api_key\<close>: only the key that authenticated the request, and a soft delete: the
  commit writes \<open>is_active = False\<close> to the row of the object's primary key.
\<close>

definition delete_api_key :: "APIKey list \<Rightarrow> string \<Rightarrow> APIKey_obj \<Rightarrow> http_error + APIKey list" where
  "delete_api_key db kid current_key =
     (if kid \<noteq> key_id current_key
      then Inl (HTTPException 403 ''You can only delete your own API key'')
      else Inr (map (\<lambda>row. if key_id row = key_id current_key
                           then row\<lparr>is_active := False\<rparr> else row) db))"

section \<open>TokenManager (utils/tokens.py)\<close>

text \<open>The claims of a token's payload, as \<open>payload.get\<close> reads them.\<close>

datatype jwt_payload = Payload
  (claim_sub: "string option") (claim_name: "string option") (claim_iat: "datetime option")
  (claim_nbf: "datetime option") (claim_exp: "datetime option") (claim_jti: "string option")

datatype jwt_result = ExpiredSignatureError | InvalidTokenError | Decoded jwt_payload

text \<open>
  \<open>jwt.decode(token, self.secret_key, algorithms=["HS256"])\<close> is a call into the JWT
  library. \<open>parse\<close> stands for its first half, which depends on the secret key: the
  payload of a token that is well formed and whose signature verifies, \<open>None\<close> (the
  library's InvalidTokenError) otherwise. Its second half compares the time claims with the
  clock, in this order: a token issued in the future (\<open>iat\<close>) or not yet valid (\<open>nbf\<close>)
  raises ImmatureSignatureError, which is an InvalidTokenError, and a token whose \<open>exp\<close> is
  not later than the clock raises ExpiredSignatureError (the code relies on it: "jwt library
  does this automatically"). A claim that is absent is not checked. All these exceptions
  are caught by \<open>verify_token\<close>.
\<close>

definition not_yet :: "datetime option \<Rightarrow> datetime \<Rightarrow> bool" where
  "not_yet claim now = (case claim of None \<Rightarrow> False | Some t \<Rightarrow> now < t)"

definition jwt_decode :: "(string \<Rightarrow> jwt_payload option) \<Rightarrow> datetime \<Rightarrow> string \<Rightarrow> jwt_result" where
  "jwt_decode parse now token =
     (case parse token of
        None \<Rightarrow> InvalidTokenError
      | Some p \<Rightarrow>
          if not_yet (claim_iat p) now then InvalidTokenError
          else if not_yet (claim_nbf p) now then InvalidTokenError
          else (case claim_exp p of
                  None \<Rightarrow> Decoded p
                | Some e \<Rightarrow> if e \<le> now then ExpiredSignatureError else Decoded p))"

datatype token_data = TokenData
  (td_api_key_id: string) (td_api_key_name: "string option") (td_token_id: "string option")
  (td_issued_at: "datetime option") (td_expires_at: "datetime option")
  (td_api_key_record: APIKey)

text \<open>\<open>verify_token\<close>: every failure, whatever its cause, is the return value \<open>None\<close>.\<close>

definition verify_token ::
  "(string \<Rightarrow> jwt_payload option) \<Rightarrow> datetime \<Rightarrow> APIKey list \<Rightarrow> string \<Rightarrow> token_data option" where
  "verify_token parse now db token =
     (case jwt_decode parse now token of
        ExpiredSignatureError \<Rightarrow> None
      | InvalidTokenError \<Rightarrow> None
      | Decoded p \<Rightarrow>
          (case claim_sub p of
             None \<Rightarrow> None
           | Some api_key_id \<Rightarrow>
               if api_key_id = [] then None
               else (case query_by_id_active db api_key_id of
                       None \<Rightarrow> None
                     | Some api_key \<Rightarrow>
                         Some (TokenData api_key_id (claim_name p) (claim_jti p)
                                 (claim_iat p) (claim_exp p) api_key))))"

definition revoke_token :: "(string \<Rightarrow> jwt_payload option) \<Rightarrow> datetime \<Rightarrow> APIKey list \<Rightarrow> string \<Rightarrow> bool" where
  "revoke_token parse now db token = (verify_token parse now db token \<noteq> None)"

section \<open>Token revocation endpoint (api/token_auth.py)\<close>

text \<open>\<open>models/usage_log.py\<close>: a row of table \<open>usage_logs\<close>; \<open>'f\<close> is Python's float.\<close>

record 'f UsageLog =
  log_id :: string
  log_api_key_id :: string
  log_provider :: string
  log_model :: string
  log_endpoint :: string
  tokens_used :: int
  prompt_tokens :: int
  completion_tokens :: int
  cost :: 'f
  request_data :: "string option"
  timestamp :: "datetime option"

text \<open>Everything the service stores: the two tables. A token has no stored state.\<close>

record 'f store =
  api_keys :: "APIKey list"
  usage_logs :: "'f UsageLog list"

text \<open>
  \<open>DELETE /auth/revoke\<close>: the response, and the store after the request. The handler
  calls \<open>TokenManager.revoke_token\<close> and nothing else; no statement of either writes.
\<close>

definition revoke_token_endpoint ::
  "(string \<Rightarrow> jwt_payload option) \<Rightarrow> datetime \<Rightarrow> 'f store \<Rightarrow> string \<Rightarrow> (http_error + string) \<times> 'f store" where
  "revoke_token_endpoint parse now st token =
     (let is_valid = revoke_token parse now (api_keys st) token
      in if \<not> is_valid then (Inl (HTTPException 401 ''Invalid token''), st)
         else (Inr ''Token revoked successfully'', st))"

section \<open>Chat completion: streaming, usage and cost (api/chat.py)\<close>

datatype CompletionUsage = CompletionUsage
  (cu_prompt_tokens: int) (cu_completion_tokens: int) (cu_total_tokens: int)

datatype choice = Choice
  (choice_index: int) (delta_role: "string option") (delta_content: "string option")
  (finish_reason: "string option")

datatype chunk = Chunk
  (chunk_id: string) (chunk_created: int) (chunk_model: string)
  (chunk_choices: "choice list") (chunk_usage: "CompletionUsage option")

text \<open>The dictionary sent for a chunk, and the three kinds of element the generator yields.\<close>

datatype chunk_data = ChunkData
  (cd_id: string) (cd_created: int) (cd_model: string) (cd_provider: string)
  (cd_choices: "choice list")

datatype sse = Data chunk_data | Done | ErrorChunk string

text \<open>
  The \<open>usage\<close> argument is an object with attributes (the provider's response) or a
  dictionary (the streaming path).
\<close>

datatype usage_arg = UsageObject CompletionUsage | UsageDict "string \<rightharpoonup> int"

definition usage_total_tokens :: "usage_arg \<Rightarrow> int" where
  "usage_total_tokens usage =
     (case usage of
        UsageObject u \<Rightarrow> cu_total_tokens u
      | UsageDict d \<Rightarrow> (case d ''total_tokens'' of None \<Rightarrow> 0 | Some v \<Rightarrow> v))"

definition usage_prompt_tokens :: "usage_arg \<Rightarrow> int" where
  "usage_prompt_tokens usage =
     (case usage of
        UsageObject u \<Rightarrow> cu_prompt_tokens u
      | UsageDict d \<Rightarrow> (case d ''prompt_tokens'' of None \<Rightarrow> 0 | Some v \<Rightarrow> v))"

definition usage_completion_tokens :: "usage_arg \<Rightarrow> int" where
  "usage_completion_tokens usage =
     (case usage of
        UsageObject u \<Rightarrow> cu_completion_tokens u
      | UsageDict d \<Rightarrow> (case d ''completion_tokens'' of None \<Rightarrow> 0 | Some v \<Rightarrow> v))"

text \<open>
  Python's float arithmetic is a parameter: the value of a float literal, \<open>int / int\<close>
  and \<open>float * float\<close>. Nothing is assumed about rounding.
\<close>

record 'f float_ops =
  float_lit :: "string \<Rightarrow> 'f"
  truediv :: "int \<Rightarrow> int \<Rightarrow> 'f"
  fmul :: "'f \<Rightarrow> 'f \<Rightarrow> 'f"

text \<open>The \<open>pricing\<close> dictionary of \<open>calculate_cost\<close>, its float literals as written.\<close>

definition pricing :: "string \<rightharpoonup> (string \<rightharpoonup> string)" where
  "pricing = map_of
     [(''openai'', map_of [(''gpt-4'', ''0.03''), (''gpt-4-turbo'', ''0.01''),
                           (''gpt-4o'', ''0.005''), (''gpt-4o-mini'', ''0.0015''),
                           (''gpt-3.5-turbo'', ''0.0015'')]),
      (''groq'', map_of [(''default'', ''0.0001'')]),
      (''gemini'', map_of [(''default'', ''0.001'')])]"

definition calculate_cost :: "'f float_ops \<Rightarrow> string \<Rightarrow> string \<Rightarrow> usage_arg \<Rightarrow> 'f" where
  "calculate_cost F provider model usage =
     (let total_tokens = usage_total_tokens usage;
          provider_pricing = (case pricing provider of None \<Rightarrow> Map.empty | Some t \<Rightarrow> t);
          cost_per_1k =
            (case provider_pricing model of
               Some v \<Rightarrow> v
             | None \<Rightarrow> (case provider_pricing ''default'' of Some v \<Rightarrow> v | None \<Rightarrow> ''0.001''))
      in fmul F (truediv F total_tokens 1000) (float_lit F cost_per_1k))"

text \<open>
  \<open>log_usage\<close>: \<open>u\<close> is the integer of \<open>uuid.uuid4()\<close>, \<open>now\<close> the server default of
  \<open>timestamp\<close>. A commit that violates the primary key raises; the function logs the
  exception and returns, and the table is as before.
\<close>

definition log_usage ::
  "'f float_ops \<Rightarrow> datetime \<Rightarrow> nat \<Rightarrow> 'f UsageLog list \<Rightarrow> string \<Rightarrow> string \<Rightarrow> string \<Rightarrow>
   usage_arg \<Rightarrow> 'f UsageLog list" where
  "log_usage F now u logs api_key_id provider model usage =
     (let usage_log = \<lparr>log_id = ''log_'' @ take 16 (uuid_hex u),
                       log_api_key_id = api_key_id, log_provider = provider,
                       log_model = model, log_endpoint = ''/v1/chat/completions'',
                       tokens_used = usage_total_tokens usage,
                       prompt_tokens = usage_prompt_tokens usage,
                       completion_tokens = usage_completion_tokens usage,
                       cost = calculate_cost F provider model usage,
                       request_data = None, timestamp = Some now\<rparr>
      in if find (\<lambda>l. log_id l = log_id usage_log) logs \<noteq> None then logs
         else logs @ [usage_log])"

text \<open>The dictionary \<open>chunk_data\<close> built for a chunk that has choices.\<close>

definition chunk_data_of :: "string \<Rightarrow> chunk \<Rightarrow> chunk_data" where
  "chunk_data_of provider c =
     ChunkData (chunk_id c) (chunk_created c) (chunk_model c) provider (chunk_choices c)"

text \<open>
  The body of \<open>async for chunk in stream\<close>, for the chunks the upstream delivers: the
  elements yielded and the value of \<open>total_tokens\<close> after the last of them.
\<close>

fun forward :: "string \<Rightarrow> chunk list \<Rightarrow> int \<Rightarrow> sse list \<times> int" where
  "forward provider [] total_tokens = ([], total_tokens)"
| "forward provider (c # cs) total_tokens =
     (if chunk_choices c \<noteq> []
      then (let total_tokens' = (case chunk_usage c of
                                   None \<Rightarrow> total_tokens
                                 | Some us \<Rightarrow> cu_total_tokens us);
                (out, t) = forward provider cs total_tokens'
            in (Data (chunk_data_of provider c) # out, t))
      else forward provider cs total_tokens)"

text \<open>
  What the upstream does: \<open>Inl e\<close> when \<open>client.chat.completions.create\<close> raises \<open>e\<close>;
  \<open>Inr (chunks, failure)\<close> when it returns a stream that delivers \<open>chunks\<close> and then
  ends (\<open>None\<close>) or raises (\<open>Some e\<close>). A stream is finite.
\<close>

type_synonym upstream = "string + (chunk list \<times> string option)"

text \<open>
  \<open>stream_chat_completion\<close>: the elements yielded, in order, and the usage table after
  the generator has finished. \<open>model\<close> is \<open>request_data["model"]\<close>.
\<close>

definition stream_chat_completion ::
  "'f float_ops \<Rightarrow> datetime \<Rightarrow> nat \<Rightarrow> upstream \<Rightarrow> string \<Rightarrow> string \<Rightarrow> string \<Rightarrow>
   'f UsageLog list \<Rightarrow> sse list \<times> 'f UsageLog list" where
  "stream_chat_completion F now u up model provider api_key_id logs =
     (case up of
        Inl e \<Rightarrow> ([ErrorChunk e], logs)
      | Inr (chunks, failure) \<Rightarrow>
          (case forward provider chunks 0 of
             (out, total_tokens) \<Rightarrow>
               (case failure of
                  Some e \<Rightarrow> (out @ [ErrorChunk e], logs)
                | None \<Rightarrow>
                    (out @ [Done],
                     if total_tokens > 0
                     then log_usage F now u logs api_key_id provider model
                            (UsageDict (map_of [(''total_tokens'', total_tokens),
                                                (''prompt_tokens'', 0),
                                                (''completion_tokens'', total_tokens)]))
                     else logs))))"

section \<open>Definitions used to state the properties\<close>

text \<open>
  The lookup order as the specification words it: the entry of the model under the
  provider of the request if there is one; else the provider's \<open>default\<close> entry; else the
  global default rate.
\<close>

definition rate_lookup :: "string \<Rightarrow> string \<Rightarrow> string" where
  "rate_lookup provider model =
     (case pricing provider of
        None \<Rightarrow> ''0.001''
      | Some t \<Rightarrow>
          (case t model of
             Some v \<Rightarrow> v
           | None \<Rightarrow> (case t ''default'' of Some d \<Rightarrow> d | None \<Rightarrow> ''0.001'')))"

text \<open>
  The usage figure a stream is metered with: the \<open>total_tokens\<close> of the last chunk,
  among those with a non-empty list of choices, that carries a usage object; 0 without one.
\<close>

definition captured_total :: "chunk list \<Rightarrow> int" where
  "captured_total cs =
     (case rev (filter (\<lambda>c. chunk_choices c \<noteq> [] \<and> chunk_usage c \<noteq> None) cs) of
        [] \<Rightarrow> 0
      | c # _ \<Rightarrow> (case chunk_usage c of None \<Rightarrow> 0 | Some us \<Rightarrow> cu_total_tokens us))"

text \<open>Concrete inputs for the examples below.\<close>

definition example_float_ops :: "int float_ops" where
  "example_float_ops = \<lparr>float_lit = int \<circ> length, truediv = (div), fmul = (*)\<rparr>"

definition example_chunks :: "chunk list" where
  "example_chunks =
     [Chunk ''c1'' 1 ''gpt-4'' [Choice 0 (Some ''assistant'') (Some ''Hi'') None] None,
      Chunk ''c2'' 1 ''gpt-4'' [] (Some (CompletionUsage 3 4 7))]"

definition example_sha256 :: "string \<Rightarrow> string" where
  "example_sha256 s = rev s"

definition example_key :: APIKey where
  "example_key = \<lparr>key_id = ''ak_1'', key_hash = example_sha256 ''llm-router-abc'',
     name = ''alice'', description = None, created_at = Some 0, last_used = None,
     is_active = True, rate_limit = 1000, usage_count = 0\<rparr>"

definition example_revoked :: APIKey where
  "example_revoked = example_key\<lparr>is_active := False\<rparr>"

definition example_cache_false :: redis where
  "example_cache_false =
     \<lparr>entries = map_of [(cache_key (example_sha256 ''llm-router-abc''),
                          cache_value example_revoked)],
      down = False\<rparr>"

definition example_cache_true :: redis where
  "example_cache_true =
     \<lparr>entries = map_of [(cache_key (example_sha256 ''llm-router-abc''),
                          cache_value example_key)],
      down = False\<rparr>"

definition example_headers :: "string \<Rightarrow> string option" where
  "example_headers h = None"

definition example_payload :: jwt_payload where
  "example_payload =
     Payload (Some ''ak_1'') (Some ''alice'') (Some 0) None (Some 1000) (Some ''j1'')"

definition example_parse :: "string \<Rightarrow> jwt_payload option" where
  "example_parse token = (if token = ''good'' then Some example_payload else None)"

definition example_store :: "int store" where
  "example_store = \<lparr>api_keys = [example_key], usage_logs = []\<rparr>"

text \<open>The row that \<open>create_api_key\<close> inserts.\<close>

definition created_row ::
  "(string \<Rightarrow> string) \<Rightarrow> string \<Rightarrow> datetime \<Rightarrow> APIKeyRequest \<Rightarrow> string \<Rightarrow> nat \<Rightarrow> APIKey" where
  "created_row sha256 pfx now request token u =
     \<lparr>key_id = ''ak_'' @ take 16 (uuid_hex u), key_hash = sha256 (pfx @ token),
      name = req_name request, description = req_description request,
      created_at = Some now, last_used = None, is_active = True, rate_limit = 1000,
      usage_count = 0\<rparr>"

text \<open>
  The states of table and cache that the service reaches from an empty table and an empty
  cache, together with the set of the raw secrets created so far: those that
  \<open>create_api_key\<close> generated for the rows it stored, whether the response that carries
  the secret could be built or not. The steps are the operations of the repository that
  write table or cache, and the two things the cache server does on its own: it becomes
  unreachable or reachable again, and an entry expires. A creation that the commit refuses
  writes nothing and is no step.
\<close>

inductive reachable ::
  "(string \<Rightarrow> string) \<Rightarrow> string \<Rightarrow> APIKey list \<Rightarrow> redis option \<Rightarrow> string set \<Rightarrow> bool"
  for sha256 :: "string \<Rightarrow> string" and pfx :: string where
  start_without_cache: "reachable sha256 pfx [] None {}"
| start_with_cache: "reachable sha256 pfx [] (Some \<lparr>entries = Map.empty, down = d\<rparr>) {}"
| created:
    "reachable sha256 pfx db r secrets \<Longrightarrow>
     create_api_key sha256 pfx now db r request token u = (outcome, db', r') \<Longrightarrow>
     outcome \<noteq> Inl IntegrityError \<Longrightarrow>
     reachable sha256 pfx db' r' (insert (pfx @ token) secrets)"
| verified:
    "reachable sha256 pfx db r secrets \<Longrightarrow>
     verify_api_key sha256 db r k = (res, r') \<Longrightarrow>
     reachable sha256 pfx db r' secrets"
| authenticated:
    "reachable sha256 pfx db r secrets \<Longrightarrow>
     get_current_api_key sha256 now db r authorization api_key headers_get =
       Inr (obj, db', r') \<Longrightarrow>
     reachable sha256 pfx db' r' secrets"
| used:
    "reachable sha256 pfx db r secrets \<Longrightarrow>
     increment_usage now db obj = (obj', db') \<Longrightarrow>
     reachable sha256 pfx db' r secrets"
| revoked:
    "reachable sha256 pfx db r secrets \<Longrightarrow>
     delete_api_key db kid current_key = Inr db' \<Longrightarrow>
     reachable sha256 pfx db' r secrets"
| cache_outage:
    "reachable sha256 pfx db (Some c) secrets \<Longrightarrow>
     reachable sha256 pfx db (Some (c\<lparr>down := d\<rparr>)) secrets"
| cache_expiry:
    "reachable sha256 pfx db (Some c) secrets \<Longrightarrow>
     reachable sha256 pfx db (Some (c\<lparr>entries := (entries c)(k := None)\<rparr>)) secrets"

text \<open>
  What holds in every such state: the hash of every row, and the hash in the name of
  every cache entry, is the hash of a secret that was created.
\<close>

definition created_only ::
  "(string \<Rightarrow> string) \<Rightarrow> APIKey list \<Rightarrow> redis option \<Rightarrow> string set \<Rightarrow> bool" where
  "created_only sha256 db r secrets =
     (key_hash ` set db \<subseteq> sha256 ` secrets \<and>
      (case r of
         None \<Rightarrow> True
       | Some c \<Rightarrow> dom (entries c) \<subseteq> cache_key ` sha256 ` secrets))"

text \<open>
  Verifications of one secret \<open>k\<close> by several callers. A verification is the two steps of
  the dependency: the caller's session loads the record (\<open>Load\<close>: the manager's
  \<open>verify_api_key\<close> and the check of \<open>is_active\<close>), and \<open>increment_usage\<close> commits the
  count the loaded object holds plus one (\<open>Commit\<close>). The table and the cache are shared;
  \<open>held\<close> is the object each caller has loaded and not yet committed. A schedule is the
  order in which the steps of the callers reach the store.
\<close>

datatype event = Load nat | Commit nat

type_synonym world = "APIKey list \<times> redis option \<times> (nat \<rightharpoonup> APIKey_obj)"

fun step :: "(string \<Rightarrow> string) \<Rightarrow> datetime \<Rightarrow> string \<Rightarrow> world \<Rightarrow> event \<Rightarrow> world" where
  "step sha256 now k (db, r, held) (Load i) =
     (case verify_api_key sha256 db r k of
        (None, r') \<Rightarrow> (db, r', held)
      | (Some api_key_record, r') \<Rightarrow>
          if \<not> is_active api_key_record then (db, r', held)
          else (db, r', held(i \<mapsto> load api_key_record)))"
| "step sha256 now k (db, r, held) (Commit i) =
     (case held i of
        None \<Rightarrow> (db, r, held)
      | Some obj \<Rightarrow> (snd (increment_usage now db obj), r, held(i := None)))"

definition run :: "(string \<Rightarrow> string) \<Rightarrow> datetime \<Rightarrow> string \<Rightarrow> world \<Rightarrow> event list \<Rightarrow> world" where
  "run sha256 now k w schedule = foldl (step sha256 now k) w schedule"

text \<open>The schedule in which \<open>n\<close> callers verify one after the other.\<close>

definition sequential :: "nat \<Rightarrow> event list" where
  "sequential n = concat (map (\<lambda>i. [Load i, Commit i]) [0..<n])"

definition example_world :: world where
  "example_world = ([example_key], None, Map.empty)"

definition example_cache_empty :: redis where
  "example_cache_empty = \<lparr>entries = Map.empty, down = False\<rparr>"

definition example_created :: APIKey where
  "example_created =
     created_row example_sha256 ''llm-router-'' 0 (APIKeyRequest ''alice'' (Some ''test''))
       ''abc'' 0"

definition example_response :: APIKeyResponse where
  "example_response =
     APIKeyResponse (key_id example_created) ''alice'' ''llm-router-abc'' ''test'' 0 1000 0"

definition example_cache_filled :: "redis option" where
  "example_cache_filled =
     cache_store (Some example_cache_empty) (example_sha256 ''llm-router-abc'') example_created"


section \<open>Streaming\<close>

lemma forward_fst:
  "fst (forward provider cs t) =
     map (\<lambda>c. Data (chunk_data_of provider c)) (filter (\<lambda>c. chunk_choices c \<noteq> []) cs)"
  by (induction cs arbitrary: t) (simp_all add: case_prod_beta Let_def)

lemma forward_snd:
  "snd (forward provider cs t) =
     (case rev (filter (\<lambda>c. chunk_choices c \<noteq> [] \<and> chunk_usage c \<noteq> None) cs) of
        [] \<Rightarrow> t
      | c # _ \<Rightarrow> (case chunk_usage c of None \<Rightarrow> 0 | Some us \<Rightarrow> cu_total_tokens us))"
proof (induction cs arbitrary: t)
  case Nil
  show ?case by simp
next
  case (Cons c cs)
  show ?case
  proof (cases "chunk_choices c \<noteq> [] \<and> chunk_usage c \<noteq> None")
    case True
    then obtain us where us: "chunk_usage c = Some us" by auto
    show ?thesis
      using True us Cons.IH [of "cu_total_tokens us"]
      by (cases "rev (filter (\<lambda>c. chunk_choices c \<noteq> [] \<and> chunk_usage c \<noteq> None) cs)")
         (simp_all add: case_prod_beta Let_def)
  next
    case False
    then show ?thesis
      using Cons.IH [of t]
      by (auto simp: case_prod_beta Let_def split: option.splits)
  qed
qed

lemma forward_total: "snd (forward provider cs 0) = captured_total cs"
  by (simp add: forward_snd captured_total_def)

text \<open>
  C6. The elements delivered for a streaming completion are the chunks received from the
  upstream that have choices, in the order received, followed by exactly one last element:
  the error chunk when the completion call or the stream raised, the sentinel otherwise.
\<close>

theorem stream_order_and_terminal:
  "fst (stream_chat_completion F now u (Inl e) model provider api_key_id logs) =
     [ErrorChunk e] \<and>
   fst (stream_chat_completion F now u (Inr (chunks, Some e)) model provider api_key_id logs) =
     map (\<lambda>c. Data (chunk_data_of provider c)) (filter (\<lambda>c. chunk_choices c \<noteq> []) chunks)
       @ [ErrorChunk e] \<and>
   fst (stream_chat_completion F now u (Inr (chunks, None)) model provider api_key_id logs) =
     map (\<lambda>c. Data (chunk_data_of provider c)) (filter (\<lambda>c. chunk_choices c \<noteq> []) chunks)
       @ [Done]"
  using forward_fst [of provider chunks 0]
  by (simp add: stream_chat_completion_def case_prod_beta)

section \<open>Cost\<close>

text \<open>
  C7. The cost computed for a provider, a model and a usage figure is
  \<open>(total_tokens / 1000) * rate\<close>, the rate being found in the order: entry of the model
  under the provider, else the provider's default entry, else the global default.
\<close>

theorem calculate_cost_lookup_order:
  "calculate_cost F provider model usage =
     fmul F (truediv F (usage_total_tokens usage) 1000)
       (float_lit F (rate_lookup provider model))"
  by (simp add: calculate_cost_def rate_lookup_def split: option.splits)

lemma rate_lookup_examples:
  "rate_lookup ''openai'' ''gpt-4'' = ''0.03''"
  "rate_lookup ''openai'' ''gpt-5'' = ''0.001''"
  "rate_lookup ''groq'' ''llama3-8b'' = ''0.0001''"
  "rate_lookup ''mistral'' ''gpt-4'' = ''0.001''"
  by (simp_all add: rate_lookup_def pricing_def)

section \<open>Usage of a stream\<close>

lemma log_usage_cases:
  "log_usage F now u logs k provider model usage = logs \<or>
   (\<exists>l. log_usage F now u logs k provider model usage = logs @ [l] \<and>
        tokens_used l = usage_total_tokens usage \<and>
        prompt_tokens l = usage_prompt_tokens usage \<and>
        completion_tokens l = usage_completion_tokens usage)"
  by (simp add: log_usage_def Let_def)

lemma captured_nonpos:
  assumes "\<forall>c \<in> set cs. chunk_choices c \<noteq> [] \<longrightarrow>
             (\<forall>us. chunk_usage c = Some us \<longrightarrow> cu_total_tokens us \<le> 0)"
  shows "captured_total cs \<le> 0"
proof (cases "rev (filter (\<lambda>c. chunk_choices c \<noteq> [] \<and> chunk_usage c \<noteq> None) cs)")
  case Nil
  then show ?thesis by (simp add: captured_total_def)
next
  case (Cons c rest)
  then have "c \<in> set (filter (\<lambda>c. chunk_choices c \<noteq> [] \<and> chunk_usage c \<noteq> None) cs)"
    by (metis list.set_intros(1) set_rev)
  then have "c \<in> set cs" "chunk_choices c \<noteq> []" by auto
  with assms have "\<forall>us. chunk_usage c = Some us \<longrightarrow> cu_total_tokens us \<le> 0" by blast
  with Cons show ?thesis by (simp add: captured_total_def split: option.splits)
qed

lemma stream_logs:
  "snd (stream_chat_completion F now u (Inr (chunks, failure)) model provider api_key_id logs) =
     (if failure = None \<and> 0 < captured_total chunks
      then log_usage F now u logs api_key_id provider model
             (UsageDict (map_of [(''total_tokens'', captured_total chunks),
                                 (''prompt_tokens'', 0),
                                 (''completion_tokens'', captured_total chunks)]))
      else logs)"
  using forward_total [of provider chunks]
  by (cases "forward provider chunks 0")
     (auto simp: stream_chat_completion_def split: option.splits)

lemma stream_logs_Inl:
  "snd (stream_chat_completion F now u (Inl e) model provider api_key_id logs) = logs"
  by (simp add: stream_chat_completion_def)

text \<open>
  C10. The usage figure of a stream comes only from chunks whose list of choices is not
  empty (\<open>captured_total\<close>). The usage table after a stream is the table before it, or the
  table before it with one more record whose \<open>prompt_tokens\<close> is 0 and whose
  \<open>completion_tokens\<close> equals its total, the positive figure captured. When no chunk with
  choices carries a positive \<open>total_tokens\<close>, no record is written.
\<close>

theorem stream_usage_record:
  "(snd (stream_chat_completion F now u up model provider api_key_id logs) = logs \<or>
    (\<exists>chunks l. up = Inr (chunks, None) \<and> 0 < captured_total chunks \<and>
       snd (stream_chat_completion F now u up model provider api_key_id logs) = logs @ [l] \<and>
       tokens_used l = captured_total chunks \<and> prompt_tokens l = 0 \<and>
       completion_tokens l = tokens_used l)) \<and>
   ((\<forall>c \<in> set cs. chunk_choices c \<noteq> [] \<longrightarrow>
        (\<forall>us. chunk_usage c = Some us \<longrightarrow> cu_total_tokens us \<le> 0)) \<longrightarrow>
    snd (stream_chat_completion F now u (Inr (cs, failure)) model provider api_key_id logs) =
      logs)"
proof
  show "snd (stream_chat_completion F now u up model provider api_key_id logs) = logs \<or>
    (\<exists>chunks l. up = Inr (chunks, None) \<and> 0 < captured_total chunks \<and>
       snd (stream_chat_completion F now u up model provider api_key_id logs) = logs @ [l] \<and>
       tokens_used l = captured_total chunks \<and> prompt_tokens l = 0 \<and>
       completion_tokens l = tokens_used l)"
  proof (cases up)
    case (Inl e)
    then show ?thesis by (simp add: stream_logs_Inl)
  next
    case (Inr p)
    obtain chunks failure where p: "p = (chunks, failure)" by (cases p)
    let ?usage = "UsageDict (map_of [(''total_tokens'', captured_total chunks),
                    (''prompt_tokens'', 0), (''completion_tokens'', captured_total chunks)])"
    have figures: "usage_total_tokens ?usage = captured_total chunks"
        "usage_prompt_tokens ?usage = 0"
        "usage_completion_tokens ?usage = captured_total chunks"
      by (simp_all add: usage_total_tokens_def usage_prompt_tokens_def
            usage_completion_tokens_def)
    show ?thesis
    proof (cases "failure = None \<and> 0 < captured_total chunks")
      case True
      then have up: "up = Inr (chunks, None)" using Inr p by simp
      have run: "snd (stream_chat_completion F now u up model provider api_key_id logs) =
          log_usage F now u logs api_key_id provider model ?usage"
        using True by (simp add: up stream_logs)
      from log_usage_cases [of F now u logs api_key_id provider model ?usage]
      show ?thesis
      proof
        assume "log_usage F now u logs api_key_id provider model ?usage = logs"
        with run show ?thesis by simp
      next
        assume "\<exists>l. log_usage F now u logs api_key_id provider model ?usage = logs @ [l] \<and>
          tokens_used l = usage_total_tokens ?usage \<and>
          prompt_tokens l = usage_prompt_tokens ?usage \<and>
          completion_tokens l = usage_completion_tokens ?usage"
        then obtain l where
          "log_usage F now u logs api_key_id provider model ?usage = logs @ [l]"
          "tokens_used l = captured_total chunks" "prompt_tokens l = 0"
          "completion_tokens l = captured_total chunks"
          using figures by auto
        with run up True show ?thesis by auto
      qed
    next
      case False
      then show ?thesis by (auto simp: Inr p stream_logs)
    qed
  qed
next
  show "(\<forall>c \<in> set cs. chunk_choices c \<noteq> [] \<longrightarrow>
        (\<forall>us. chunk_usage c = Some us \<longrightarrow> cu_total_tokens us \<le> 0)) \<longrightarrow>
    snd (stream_chat_completion F now u (Inr (cs, failure)) model provider api_key_id logs) =
      logs"
  proof
    assume "\<forall>c \<in> set cs. chunk_choices c \<noteq> [] \<longrightarrow>
        (\<forall>us. chunk_usage c = Some us \<longrightarrow> cu_total_tokens us \<le> 0)"
    then have "captured_total cs \<le> 0" by (rule captured_nonpos)
    then show "snd (stream_chat_completion F now u (Inr (cs, failure)) model provider
        api_key_id logs) = logs"
      by (simp add: stream_logs)
  qed
qed

text \<open>
  The example stream has one chunk with choices and no usage, and a last chunk with the
  usage figure 7 and no choices: the figure is not captured and nothing is written.
\<close>

theorem stream_usage_record_witness:
  "captured_total example_chunks = 0 \<and>
   snd (stream_chat_completion example_float_ops 0 0 (Inr (example_chunks, None))
          ''gpt-4'' ''openai'' ''ak_1'' []) = []"
proof -
  have h: "\<forall>c \<in> set example_chunks. chunk_choices c \<noteq> [] \<longrightarrow>
      (\<forall>us. chunk_usage c = Some us \<longrightarrow> cu_total_tokens us \<le> 0)"
    by (simp add: example_chunks_def)
  from stream_usage_record [of example_float_ops 0 0 "Inr (example_chunks, None)" "''gpt-4''"
      "''openai''" "''ak_1''" "[]" example_chunks None] h
  show ?thesis by (simp add: captured_total_def example_chunks_def)
qed

text \<open>A stream whose chunk with choices carries the usage figure 5: one record is written.\<close>

lemma example_stream_writes_record:
  "map (\<lambda>l. (tokens_used l, prompt_tokens l, completion_tokens l))
     (snd (stream_chat_completion example_float_ops 0 0
        (Inr ([Chunk ''c1'' 1 ''gpt-4'' [Choice 0 None (Some ''Hi'') None]
                 (Some (CompletionUsage 2 3 5))], None))
        ''gpt-4'' ''openai'' ''ak_1'' [])) = [(5, 0, 5)]"
  by (simp add: stream_logs captured_total_def log_usage_def usage_total_tokens_def
      usage_prompt_tokens_def usage_completion_tokens_def Let_def)

section \<open>Key usage\<close>

lemma load_active: "is_active (load row) = is_active row"
  by (simp add: load_def APIKey.defs)

lemma incr_active: "is_active (fst (increment_usage now db k)) = is_active k"
  by (simp add: increment_usage_def Let_def)

text \<open>
  C8. What \<open>increment_usage\<close> does to the timestamp: the object gets the attribute
  \<open>last_used_at\<close>, and the column \<open>last_used\<close> of every stored row is what it was. The
  counter of the object's row is written with the object's count plus one.
\<close>

theorem increment_usage_last_used_not_stored:
  "last_used_at (fst (increment_usage now db api_key)) = Some now \<and>
   map last_used (snd (increment_usage now db api_key)) = map last_used db \<and>
   map usage_count (snd (increment_usage now db api_key)) =
     map (\<lambda>row. if key_id row = key_id api_key then usage_count api_key + 1
                 else usage_count row) db"
  by (simp add: increment_usage_def Let_def)

section \<open>The credential dependency\<close>

lemma dep_Inr:
  assumes "get_current_api_key sha256 now db r authorization api_key headers_get = Inr x"
  shows "\<exists>auth_header v row r'.
      find_auth_header authorization api_key headers_get = Some auth_header \<and>
      extract_api_key_value auth_header = Some v \<and>
      verify_api_key sha256 db r v = (Some row, r') \<and> is_active row \<and>
      x = (fst (increment_usage now db (load row)),
           snd (increment_usage now db (load row)), r')"
proof -
  from assms obtain auth_header
    where a: "find_auth_header authorization api_key headers_get = Some auth_header"
    by (cases "find_auth_header authorization api_key headers_get")
       (simp_all add: get_current_api_key_def)
  from assms a obtain v where v: "extract_api_key_value auth_header = Some v"
    by (cases "extract_api_key_value auth_header")
       (simp_all add: get_current_api_key_def truthy_def split: if_splits)
  obtain res r' where m: "verify_api_key sha256 db r v = (res, r')"
    by (cases "verify_api_key sha256 db r v")
  from assms a v m obtain row where row: "res = Some row"
    by (cases res) (simp_all add: get_current_api_key_def split: if_splits)
  from assms a v m row have act: "is_active row"
    by (simp add: get_current_api_key_def split: if_splits)
  from assms a v m row act
  have "x = (fst (increment_usage now db (load row)),
             snd (increment_usage now db (load row)), r')"
    by (simp add: get_current_api_key_def case_prod_beta split: if_splits)
  with a v m row act show ?thesis by blast
qed

lemma dep_success_active:
  "get_current_api_key sha256 now db r authorization api_key headers_get = Inr (obj, db', r')
   \<Longrightarrow> is_active obj"
  using dep_Inr [of sha256 now db r authorization api_key headers_get "(obj, db', r')"]
  by (auto simp: incr_active load_active)

lemma mgr_cached:
  "cached_id r (sha256 v) = Some kid \<Longrightarrow>
   verify_api_key sha256 db r v = (query_by_id db kid, r)"
  by (simp add: verify_api_key_def)

lemma extract_nonempty: "extract_api_key_value auth_header = Some v \<Longrightarrow> auth_header \<noteq> []"
  by (auto simp: extract_api_key_value_def startswith_def)

lemma dep_disabled:
  assumes "find_auth_header authorization api_key headers_get = Some auth_header"
    and "extract_api_key_value auth_header = Some v" and "v \<noteq> []"
    and "verify_api_key sha256 db r v = (Some row, r')" and "\<not> is_active row"
  shows "get_current_api_key sha256 now db r authorization api_key headers_get =
           Inl (HTTPException 401 ''API key is disabled'')"
  using assms extract_nonempty [OF assms(2)]
  by (simp add: get_current_api_key_def truthy_def)

text \<open>
  C9. A record that the credential dependency hands to a handler has \<open>is_active\<close> true.
  On a cache hit whose identifier leads to a row that is no longer active, the manager
  returns that row (it filters on the identifier only) and the dependency rejects the
  request with status 401, "API key is disabled".
\<close>

theorem dependency_returns_active_key:
  "(get_current_api_key sha256 now db r authorization api_key headers_get = Inr (obj, db', r')
      \<longrightarrow> is_active obj) \<and>
   (find_auth_header authorization api_key headers_get = Some auth_header \<and>
    extract_api_key_value auth_header = Some v \<and> v \<noteq> [] \<and>
    cached_id r (sha256 v) = Some kid \<and> query_by_id db kid = Some row \<and> \<not> is_active row
      \<longrightarrow> verify_api_key sha256 db r v = (Some row, r) \<and>
          get_current_api_key sha256 now db r authorization api_key headers_get =
            Inl (HTTPException 401 ''API key is disabled''))"
proof (intro conjI impI)
  assume "get_current_api_key sha256 now db r authorization api_key headers_get =
    Inr (obj, db', r')"
  then show "is_active obj" by (rule dep_success_active)
next
  assume a: "find_auth_header authorization api_key headers_get = Some auth_header \<and>
    extract_api_key_value auth_header = Some v \<and> v \<noteq> [] \<and>
    cached_id r (sha256 v) = Some kid \<and> query_by_id db kid = Some row \<and> \<not> is_active row"
  then show m: "verify_api_key sha256 db r v = (Some row, r)" by (simp add: mgr_cached)
  from a m show "get_current_api_key sha256 now db r authorization api_key headers_get =
      Inl (HTTPException 401 ''API key is disabled'')"
    by (intro dep_disabled [of _ _ _ auth_header v _ _ _ row r]) simp_all
qed

section \<open>The cache entry of an inactive key\<close>

text \<open>
  C2, as the code has it. When the cache holds, under the hash of the presented secret, an
  entry whose third field is not \<open>"True"\<close> (an entry recording \<open>is_active = False\<close> is
  one), the manager does not reject: it goes on to the query by hash filtered on
  \<open>is_active\<close>, and returns what that query finds.
\<close>

theorem inactive_cache_entry_falls_through:
  "r = Some c \<and> entries c (cache_key (sha256 k)) = Some cached \<and>
   unpack3 cached = Some (kid, nm, act) \<and> act \<noteq> ''True''
   \<Longrightarrow> fst (verify_api_key sha256 db r k) = query_by_hash_active db (sha256 k)"
  by (simp add: verify_api_key_def cached_id_def Let_def)

section \<open>Tokens\<close>

lemma verify_token_Some:
  "verify_token parse t db token = Some d \<Longrightarrow>
     \<exists>p kid row. jwt_decode parse t token = Decoded p \<and> claim_sub p = Some kid \<and>
        kid \<noteq> [] \<and> query_by_id_active db kid = Some row \<and>
        d = TokenData kid (claim_name p) (claim_jti p) (claim_iat p) (claim_exp p) row"
  by (auto simp: verify_token_def split: option.splits if_splits jwt_result.splits)

lemma not_yet_later: "\<not> not_yet claim t0 \<Longrightarrow> t0 \<le> t2 \<Longrightarrow> \<not> not_yet claim t2"
  by (cases claim) (simp_all add: not_yet_def)

lemma decode_Decoded:
  "jwt_decode parse t token = Decoded p \<Longrightarrow>
   parse token = Some p \<and> \<not> not_yet (claim_iat p) t \<and> \<not> not_yet (claim_nbf p) t"
  by (simp add: jwt_decode_def split: option.splits if_splits)

lemma decode_later:
  assumes "jwt_decode parse t0 token = Decoded p" and "t0 \<le> t2"
    and "jwt_decode parse t2 token \<noteq> ExpiredSignatureError"
  shows "jwt_decode parse t2 token = Decoded p"
proof -
  from decode_Decoded [OF assms(1)]
  have p: "parse token = Some p" and "\<not> not_yet (claim_iat p) t0"
    and "\<not> not_yet (claim_nbf p) t0"
    by simp_all
  with assms(2) have "\<not> not_yet (claim_iat p) t2" "\<not> not_yet (claim_nbf p) t2"
    by (simp_all add: not_yet_later)
  with p assms(3) show ?thesis
    by (simp add: jwt_decode_def split: option.splits if_splits)
qed

lemma verify_token_Decoded:
  "jwt_decode parse t token = Decoded p \<Longrightarrow> claim_sub p = Some kid \<Longrightarrow> kid \<noteq> [] \<Longrightarrow>
   query_by_id_active db kid = Some row \<Longrightarrow>
   verify_token parse t db token =
     Some (TokenData kid (claim_name p) (claim_jti p) (claim_iat p) (claim_exp p) row)"
  by (simp add: verify_token_def)

text \<open>
  C4. The revocation endpoint returns the store it was given: no key record and no usage
  record changes, and a token has no stored state. A token that verified at a time \<open>t0\<close>
  before the call verifies after it, with the same result, at any later time \<open>t2\<close> at
  which it has not expired.
\<close>

theorem revoke_token_changes_nothing:
  "snd (revoke_token_endpoint parse t1 st token) = st \<and>
   (verify_token parse t0 (api_keys st) token = Some d \<and> t0 \<le> t2 \<and>
    jwt_decode parse t2 token \<noteq> ExpiredSignatureError \<longrightarrow>
    verify_token parse t2 (api_keys (snd (revoke_token_endpoint parse t1 st token))) token =
      Some d)"
proof (intro conjI impI)
  show same: "snd (revoke_token_endpoint parse t1 st token) = st"
    by (simp add: revoke_token_endpoint_def Let_def)
  assume a: "verify_token parse t0 (api_keys st) token = Some d \<and> t0 \<le> t2 \<and>
    jwt_decode parse t2 token \<noteq> ExpiredSignatureError"
  then obtain p kid row where p: "jwt_decode parse t0 token = Decoded p"
      "claim_sub p = Some kid" "kid \<noteq> []"
      "query_by_id_active (api_keys st) kid = Some row"
      "d = TokenData kid (claim_name p) (claim_jti p) (claim_iat p) (claim_exp p) row"
    using verify_token_Some by blast
  from a p(1) have "jwt_decode parse t2 token = Decoded p"
    by (intro decode_later [of parse t0 token p t2]) simp_all
  from verify_token_Decoded [OF this p(2) p(3) p(4)] p(5)
  show "verify_token parse t2 (api_keys (snd (revoke_token_endpoint parse t1 st token)))
      token = Some d"
    by (simp add: same)
qed

lemma query_inactive_None:
  "\<forall>row \<in> set db. key_id row = kid \<longrightarrow> \<not> is_active row \<Longrightarrow>
   query_by_id_active db kid = None"
  unfolding query_by_id_active_def find_None_iff by blast

lemma delete_Inr:
  "delete_api_key db0 kid current_key = Inr db' \<Longrightarrow>
   db' = map (\<lambda>row. if key_id row = kid then row\<lparr>is_active := False\<rparr> else row) db0"
  unfolding delete_api_key_def by (cases "kid = key_id current_key") simp_all

lemma deactivated_rows:
  assumes m: "row \<in> set (map (\<lambda>row. if key_id row = kid then row\<lparr>is_active := False\<rparr>
                                     else row) db0)"
    and k: "key_id row = kid"
  shows "\<not> is_active row"
proof -
  from m obtain row0 where r0:
      "row = (if key_id row0 = kid then row0\<lparr>is_active := False\<rparr> else row0)"
    unfolding set_map by (rule imageE)
  show "\<not> is_active row"
  proof (cases "key_id row0 = kid")
    case True
    then have "row = row0\<lparr>is_active := False\<rparr>" using r0 by simp
    then show ?thesis by simp
  next
    case False
    then have "row = row0" using r0 by simp
    with False k show ?thesis by simp
  qed
qed

lemma delete_inactive:
  "delete_api_key db0 kid current_key = Inr db' \<Longrightarrow>
   \<forall>row \<in> set db'. key_id row = kid \<longrightarrow> \<not> is_active row"
  using deactivated_rows delete_Inr by blast

lemma verify_token_inactive:
  "jwt_decode parse now token = Decoded p \<Longrightarrow> claim_sub p = Some kid \<Longrightarrow>
   query_by_id_active db kid = None \<Longrightarrow> verify_token parse now db token = None"
  by (simp add: verify_token_def)

lemma verify_token_undecoded:
  "\<forall>q. jwt_decode parse now other \<noteq> Decoded q \<Longrightarrow> verify_token parse now db other = None"
  by (cases "jwt_decode parse now other") (simp_all add: verify_token_def)

lemma verify_token_parsed_inactive:
  "parse token = Some p \<Longrightarrow> claim_sub p = Some kid \<Longrightarrow>
   query_by_id_active db kid = None \<Longrightarrow> verify_token parse now db token = None"
  by (cases "jwt_decode parse now token")
     (auto simp: verify_token_def dest: decode_Decoded)

text \<open>
  C1, as the code has it. When the signature of a token verifies and it has not expired,
  and the key it names is missing or inactive, \<open>verify_token\<close> fails, and it fails with
  the same value, \<open>None\<close>, as for a token that does not decode (bad signature, expiry,
  malformed). After \<open>delete_api_key\<close> has revoked a key, every token naming that key fails
  verification, at any time.
\<close>

theorem verify_token_fails_for_inactive_key:
  "(jwt_decode parse now token = Decoded p \<and> claim_sub p = Some kid \<and>
    (\<forall>row \<in> set db. key_id row = kid \<longrightarrow> \<not> is_active row)
      \<longrightarrow> verify_token parse now db token = None \<and>
          (\<forall>other. (\<forall>q. jwt_decode parse now other \<noteq> Decoded q) \<longrightarrow>
             verify_token parse now db other = verify_token parse now db token)) \<and>
   (delete_api_key db0 kid current_key = Inr db' \<and> parse token = Some p \<and>
    claim_sub p = Some kid
      \<longrightarrow> verify_token parse now db' token = None)"
proof (intro conjI impI)
  assume a: "jwt_decode parse now token = Decoded p \<and> claim_sub p = Some kid \<and>
    (\<forall>row \<in> set db. key_id row = kid \<longrightarrow> \<not> is_active row)"
  then have "query_by_id_active db kid = None" by (simp add: query_inactive_None)
  with a show none: "verify_token parse now db token = None"
    by (simp add: verify_token_inactive)
  show "\<forall>other. (\<forall>q. jwt_decode parse now other \<noteq> Decoded q) \<longrightarrow>
             verify_token parse now db other = verify_token parse now db token"
    by (simp add: none verify_token_undecoded)
next
  assume a: "delete_api_key db0 kid current_key = Inr db' \<and> parse token = Some p \<and>
    claim_sub p = Some kid"
  then have "delete_api_key db0 kid current_key = Inr db'" by simp
  then have "query_by_id_active db' kid = None"
    by (intro query_inactive_None delete_inactive)
  with a show "verify_token parse now db' token = None"
    by (simp add: verify_token_parsed_inactive)
qed

section \<open>Examples\<close>

lemma example_unpack_false:
  "unpack3 (cache_value example_revoked) = Some (''ak_1'', ''alice'', ''False'')"
  by (simp add: unpack3_def cache_value_def example_revoked_def example_key_def str_bool_def
      numeral_2_eq_2)

lemma example_unpack_true:
  "unpack3 (cache_value example_key) = Some (''ak_1'', ''alice'', ''True'')"
  by (simp add: unpack3_def cache_value_def example_key_def str_bool_def numeral_2_eq_2)

lemma example_find_header:
  "find_auth_header (Some ''Bearer llm-router-abc'') None example_headers =
     Some ''Bearer llm-router-abc''"
  by (simp add: find_auth_header_def truthy_def Let_def)

lemma example_extract:
  "extract_api_key_value ''Bearer llm-router-abc'' = Some ''llm-router-abc''"
  by (simp add: extract_api_key_value_def startswith_def strip_def is_space_def)

lemma example_dep_success:
  "get_current_api_key example_sha256 50 [example_key] None (Some ''Bearer llm-router-abc'')
     None example_headers =
   Inr (fst (increment_usage 50 [example_key] (load example_key)),
        snd (increment_usage 50 [example_key] (load example_key)), None)"
  by (simp add: get_current_api_key_def example_find_header example_extract truthy_def
      verify_api_key_def cached_id_def query_by_hash_active_def example_key_def
      cache_store_def case_prod_beta Let_def)

lemma example_cached_id:
  "cached_id (Some example_cache_true) (example_sha256 ''llm-router-abc'') = Some ''ak_1''"
proof -
  have "cache_value example_key \<noteq> []" by (simp add: cache_value_def)
  then show ?thesis
    by (simp add: cached_id_def example_cache_true_def example_unpack_true)
qed

text \<open>
  The cache records \<open>is_active = False\<close> for the hash of the secret, the table holds an
  active row with that hash: the manager queries the table and accepts the secret.
\<close>

theorem inactive_cache_entry_not_rejected:
  "entries example_cache_false (cache_key (example_sha256 ''llm-router-abc'')) =
     Some (cache_value example_revoked) \<and>
   fst (verify_api_key example_sha256 [example_key] (Some example_cache_false)
          ''llm-router-abc'') = Some example_key"
  by (simp add: verify_api_key_def cached_id_def example_cache_false_def example_unpack_false
      query_by_hash_active_def example_key_def Let_def)

text \<open>The same cache in front of a table whose row is inactive: the query finds nothing.\<close>

theorem inactive_cache_entry_falls_through_witness:
  "Some example_cache_false = Some example_cache_false \<and>
   entries example_cache_false (cache_key (example_sha256 ''llm-router-abc'')) =
     Some (cache_value example_revoked) \<and>
   unpack3 (cache_value example_revoked) = Some (''ak_1'', ''alice'', ''False'') \<and>
   ''False'' \<noteq> ''True'' \<and>
   fst (verify_api_key example_sha256 [example_revoked] (Some example_cache_false)
          ''llm-router-abc'') = None"
proof -
  have h: "Some example_cache_false = Some example_cache_false \<and>
     entries example_cache_false (cache_key (example_sha256 ''llm-router-abc'')) =
       Some (cache_value example_revoked) \<and>
     unpack3 (cache_value example_revoked) = Some (''ak_1'', ''alice'', ''False'') \<and>
     ''False'' \<noteq> ''True''"
    by (simp add: example_cache_false_def example_unpack_false)
  have q: "query_by_hash_active [example_revoked] (example_sha256 ''llm-router-abc'') = None"
    by (simp add: query_by_hash_active_def example_revoked_def)
  from inactive_cache_entry_falls_through [of "Some example_cache_false" example_cache_false
      example_sha256 "''llm-router-abc''" "cache_value example_revoked" "''ak_1''" "''alice''"
      "''False''" "[example_revoked]"] h q
  show ?thesis by simp
qed

text \<open>
  A token whose signature verifies, not expired, for a revoked key, and a forged token:
  \<open>verify_token\<close> returns the same value for both.
\<close>

theorem revoked_key_failure_not_distinguished:
  "jwt_decode example_parse 100 ''good'' = Decoded example_payload \<and>
   jwt_decode example_parse 100 ''forged'' = InvalidTokenError \<and>
   verify_token example_parse 100 [example_revoked] ''good'' =
     verify_token example_parse 100 [example_revoked] ''forged''"
  by (simp add: verify_token_def jwt_decode_def not_yet_def example_parse_def
      example_payload_def query_by_id_active_def example_revoked_def)

theorem verify_token_fails_for_inactive_key_witness:
  "jwt_decode example_parse 100 ''good'' = Decoded example_payload \<and>
   claim_sub example_payload = Some ''ak_1'' \<and>
   key_id example_revoked = ''ak_1'' \<and> \<not> is_active example_revoked \<and>
   delete_api_key [example_key] ''ak_1'' (load example_key) = Inr [example_revoked] \<and>
   example_parse ''good'' = Some example_payload \<and>
   verify_token example_parse 100 [example_revoked] ''good'' = None \<and>
   verify_token example_parse 100 [example_revoked] ''forged'' = None"
proof -
  have h1: "jwt_decode example_parse 100 ''good'' = Decoded example_payload \<and>
     claim_sub example_payload = Some ''ak_1'' \<and>
     (\<forall>row \<in> set [example_revoked]. key_id row = ''ak_1'' \<longrightarrow> \<not> is_active row)"
    by (simp add: jwt_decode_def not_yet_def example_parse_def example_payload_def
        example_revoked_def)
  have h2: "delete_api_key [example_key] ''ak_1'' (load example_key) = Inr [example_revoked] \<and>
     example_parse ''good'' = Some example_payload \<and> claim_sub example_payload = Some ''ak_1''"
    by (simp add: delete_api_key_def load_def APIKey.defs example_key_def example_revoked_def
        example_parse_def example_payload_def)
  have h3: "\<forall>q. jwt_decode example_parse 100 ''forged'' \<noteq> Decoded q"
    by (simp add: jwt_decode_def example_parse_def)
  from verify_token_fails_for_inactive_key [of example_parse 100 "''good''" example_payload
      "''ak_1''" "[example_revoked]" "[example_key]" "load example_key" "[example_revoked]"]
    h1 h2 h3
  show ?thesis by (simp add: example_revoked_def example_key_def)
qed

theorem revoke_token_changes_nothing_witness:
  "verify_token example_parse 100 (api_keys example_store) ''good'' =
     Some (TokenData ''ak_1'' (Some ''alice'') (Some ''j1'') (Some 0) (Some 1000) example_key) \<and>
   (100::int) \<le> 500 \<and>
   jwt_decode example_parse 500 ''good'' \<noteq> ExpiredSignatureError \<and>
   snd (revoke_token_endpoint example_parse 200 example_store ''good'') = example_store \<and>
   verify_token example_parse 500
     (api_keys (snd (revoke_token_endpoint example_parse 200 example_store ''good''))) ''good'' =
     Some (TokenData ''ak_1'' (Some ''alice'') (Some ''j1'') (Some 0) (Some 1000) example_key)"
proof -
  have h: "verify_token example_parse 100 (api_keys example_store) ''good'' =
       Some (TokenData ''ak_1'' (Some ''alice'') (Some ''j1'') (Some 0) (Some 1000) example_key) \<and>
     (100::int) \<le> 500 \<and>
     jwt_decode example_parse 500 ''good'' \<noteq> ExpiredSignatureError"
    by (simp add: verify_token_def jwt_decode_def not_yet_def example_parse_def
        example_payload_def example_store_def query_by_id_active_def example_key_def)
  from revoke_token_changes_nothing [of example_parse 200 example_store "''good''" 100
      "TokenData ''ak_1'' (Some ''alice'') (Some ''j1'') (Some 0) (Some 1000) example_key" 500] h
  show ?thesis by blast
qed

text \<open>
  A request with the secret of an active key is accepted; the same request when the cache
  still says \<open>True\<close> for a key that has been revoked is rejected.
\<close>

theorem dependency_returns_active_key_witness:
  "get_current_api_key example_sha256 50 [example_key] None (Some ''Bearer llm-router-abc'')
     None example_headers =
   Inr (fst (increment_usage 50 [example_key] (load example_key)),
        snd (increment_usage 50 [example_key] (load example_key)), None) \<and>
   is_active (fst (increment_usage 50 [example_key] (load example_key))) \<and>
   find_auth_header (Some ''Bearer llm-router-abc'') None example_headers =
     Some ''Bearer llm-router-abc'' \<and>
   extract_api_key_value ''Bearer llm-router-abc'' = Some ''llm-router-abc'' \<and>
   ''llm-router-abc'' \<noteq> [] \<and>
   cached_id (Some example_cache_true) (example_sha256 ''llm-router-abc'') = Some ''ak_1'' \<and>
   query_by_id [example_revoked] ''ak_1'' = Some example_revoked \<and>
   \<not> is_active example_revoked \<and>
   get_current_api_key example_sha256 50 [example_revoked] (Some example_cache_true)
     (Some ''Bearer llm-router-abc'') None example_headers =
   Inl (HTTPException 401 ''API key is disabled'')"
proof -
  have q: "query_by_id [example_revoked] ''ak_1'' = Some example_revoked \<and>
      \<not> is_active example_revoked"
    by (simp add: query_by_id_def example_revoked_def example_key_def)
  from dependency_returns_active_key [of example_sha256 50 "[example_key]" None
      "Some ''Bearer llm-router-abc''" None example_headers
      "fst (increment_usage 50 [example_key] (load example_key))"
      "snd (increment_usage 50 [example_key] (load example_key))" None]
    example_dep_success
  have first: "is_active (fst (increment_usage 50 [example_key] (load example_key)))"
    by blast
  from dependency_returns_active_key [of example_sha256 50 "[example_revoked]"
      "Some example_cache_true" "Some ''Bearer llm-router-abc''" None example_headers _ _ _
      "''Bearer llm-router-abc''" "''llm-router-abc''" "''ak_1''" example_revoked]
    example_find_header example_extract example_cached_id q
  have second: "get_current_api_key example_sha256 50 [example_revoked]
      (Some example_cache_true) (Some ''Bearer llm-router-abc'') None example_headers =
      Inl (HTTPException 401 ''API key is disabled'')"
    by simp
  from first second example_dep_success example_find_header example_extract
    example_cached_id q
  show ?thesis by simp
qed

section \<open>Creation and verification of keys\<close>

lemma hex_digit_in: "hex_digit n \<in> set ''0123456789abcdef''"
  unfolding hex_digit_def by (rule nth_mem) simp

lemma hex_digit_not_colon: "hex_digit n \<noteq> CHR '':''"
  using hex_digit_in [of n] by auto

lemma uuid_hex_no_colon: "CHR '':'' \<notin> set (uuid_hex u)"
proof
  assume "CHR '':'' \<in> set (uuid_hex u)"
  then obtain n where "CHR '':'' = hex_digit n" by (auto simp: uuid_hex_def)
  with hex_digit_not_colon [of n] show False by simp
qed

lemma created_id_no_colon: "CHR '':'' \<notin> set (key_id (created_row sha256 pfx now request token u))"
proof -
  have "set (take 16 (uuid_hex u)) \<subseteq> set (uuid_hex u)" by (rule set_take_subset)
  with uuid_hex_no_colon [of u] show ?thesis by (auto simp: created_row_def)
qed

lemma created_row_fields:
  "key_hash (created_row sha256 pfx now request token u) = sha256 (pfx @ token)"
  "is_active (created_row sha256 pfx now request token u)"
  "key_id (created_row sha256 pfx now request token u) = ''ak_'' @ take 16 (uuid_hex u)"
  by (simp_all add: created_row_def)

lemma create_api_key_eq:
  "create_api_key sha256 pfx now db r request token u =
     (if find (\<lambda>row. key_id row = key_id (created_row sha256 pfx now request token u) \<or>
                      key_hash row = sha256 (pfx @ token)) db \<noteq> None
      then (Inl IntegrityError, db, r)
      else (case req_description request of
              None \<Rightarrow> Inl ValidationError
            | Some d \<Rightarrow>
                Inr (APIKeyResponse (key_id (created_row sha256 pfx now request token u))
                       (req_name request) (pfx @ token) d now 1000 0),
            db @ [created_row sha256 pfx now request token u],
            cache_store r (sha256 (pfx @ token))
              (created_row sha256 pfx now request token u)))"
  by (simp add: create_api_key_def generate_api_key_def created_row_def Let_def
      split: option.splits)

lemma create_stored:
  assumes "create_api_key sha256 pfx now db r request token u = (outcome, db', r')"
    and "outcome \<noteq> Inl IntegrityError"
  shows "find (\<lambda>row. key_id row = key_id (created_row sha256 pfx now request token u) \<or>
                     key_hash row = sha256 (pfx @ token)) db = None"
    and "db' = db @ [created_row sha256 pfx now request token u]"
    and "r' = cache_store r (sha256 (pfx @ token)) (created_row sha256 pfx now request token u)"
proof -
  let ?row = "created_row sha256 pfx now request token u"
  show none: "find (\<lambda>row. key_id row = key_id ?row \<or> key_hash row = sha256 (pfx @ token)) db
      = None"
  proof (rule ccontr)
    assume "find (\<lambda>row. key_id row = key_id ?row \<or> key_hash row = sha256 (pfx @ token)) db
      \<noteq> None"
    then have "create_api_key sha256 pfx now db r request token u = (Inl IntegrityError, db, r)"
      unfolding create_api_key_eq by simp
    with assms show False by simp
  qed
  from assms(1) none show "db' = db @ [?row]"
    unfolding create_api_key_eq by simp
  from assms(1) none show "r' = cache_store r (sha256 (pfx @ token)) ?row"
    unfolding create_api_key_eq by simp
qed

lemma create_returned:
  assumes "create_api_key sha256 pfx now db r request token u = (Inr resp, db', r')"
  shows "resp_key resp = pfx @ token"
    and "resp_id resp = key_id (created_row sha256 pfx now request token u)"
proof -
  let ?row = "created_row sha256 pfx now request token u"
  have stored: "find (\<lambda>row. key_id row = key_id ?row \<or> key_hash row = sha256 (pfx @ token)) db
      = None"
    using assms by (intro create_stored(1) [of _ _ _ _ _ _ _ _ "Inr resp" db' r']) simp_all
  from assms stored obtain d where
    "resp = APIKeyResponse (key_id ?row) (req_name request) (pfx @ token) d now 1000 0"
    unfolding create_api_key_eq by (cases "req_description request") auto
  then show "resp_key resp = pfx @ token" "resp_id resp = key_id ?row" by simp_all
qed

lemma split_once_prefix: "c \<notin> set a \<Longrightarrow> split_once c (a @ c # b) = Some (a, b)"
  by (induction a) auto

lemma unpack3_first:
  "CHR '':'' \<notin> set a \<Longrightarrow>
   unpack3 (a @ CHR '':'' # rest) =
     (case split_once (CHR '':'') rest of None \<Rightarrow> None | Some (p, q) \<Rightarrow> Some (a, p, q))"
  by (simp add: unpack3_def numeral_2_eq_2 split_once_prefix split: option.splits)

lemma find_append_new:
  "find P xs = None \<Longrightarrow> P x \<Longrightarrow> find P (xs @ [x]) = Some x"
  by (induction xs) (simp_all split: if_splits)

lemma find_None_weaker:
  "find (\<lambda>x. P x \<or> Q x) xs = None \<Longrightarrow> find P xs = None \<and> find (\<lambda>x. Q x \<and> R x) xs = None"
  unfolding find_None_iff by blast

lemma cache_value_shape:
  "cache_value k = key_id k @ CHR '':'' # (name k @ '':'' @ str_bool (is_active k))"
  by (simp add: cache_value_def)

lemma cached_id_value:
  assumes "CHR '':'' \<notin> set (key_id k)"
    and "entries c (cache_key h) = Some (cache_value k)"
  shows "cached_id (Some c) h = None \<or> cached_id (Some c) h = Some (key_id k)"
proof (cases "split_once (CHR '':'') (name k @ '':'' @ str_bool (is_active k))")
  case None
  then have "unpack3 (cache_value k) = None"
    unfolding cache_value_shape by (simp add: unpack3_first [OF assms(1)])
  with assms(2) show ?thesis by (simp add: cached_id_def)
next
  case (Some pq)
  obtain p q where "pq = (p, q)" by (cases pq)
  with Some have "unpack3 (cache_value k) = Some (key_id k, p, q)"
    unfolding cache_value_shape by (simp add: unpack3_first [OF assms(1)])
  with assms(2) show ?thesis by (simp add: cached_id_def)
qed

lemma cached_id_after_store:
  assumes "CHR '':'' \<notin> set (key_id k)"
  shows "cached_id (cache_store r h k) h = None \<or>
         cached_id (cache_store r h k) h = Some (key_id k)"
proof (cases r)
  case None
  then show ?thesis by (simp add: cache_store_def cached_id_def)
next
  case (Some c)
  show ?thesis
  proof (cases "down c")
    case True
    with Some show ?thesis by (simp add: cache_store_def cached_id_def)
  next
    case False
    let ?c' = "c\<lparr>entries := (entries c)(cache_key h \<mapsto> cache_value k)\<rparr>"
    have store: "cache_store r h k = Some ?c'"
      using Some False by (simp add: cache_store_def)
    have "entries ?c' (cache_key h) = Some (cache_value k)" by simp
    from cached_id_value [OF assms this] show ?thesis unfolding store .
  qed
qed

lemma verify_after_create:
  assumes "create_api_key sha256 pfx now db r request token u = (outcome, db', r')"
    and "outcome \<noteq> Inl IntegrityError"
  shows "fst (verify_api_key sha256 db' r' (pfx @ token)) =
           Some (created_row sha256 pfx now request token u)"
proof -
  let ?row = "created_row sha256 pfx now request token u"
  let ?h = "sha256 (pfx @ token)"
  note c = create_stored [OF assms]
  from find_None_weaker [OF c(1)]
  have by_id: "find (\<lambda>row. key_id row = key_id ?row) db = None"
    and by_hash: "find (\<lambda>row. key_hash row = ?h \<and> is_active row) db = None"
    by simp_all
  have q_id: "query_by_id db' (key_id ?row) = Some ?row"
    unfolding query_by_id_def c(2) using by_id by (rule find_append_new) simp
  have q_hash: "query_by_hash_active db' ?h = Some ?row"
    unfolding query_by_hash_active_def c(2) using by_hash
    by (rule find_append_new) (simp add: created_row_fields)
  from cached_id_after_store [where k = ?row and r = r and h = ?h, OF created_id_no_colon]
  have "cached_id r' ?h = None \<or> cached_id r' ?h = Some (key_id ?row)"
    unfolding c(3) .
  then show ?thesis
  proof
    assume "cached_id r' ?h = None"
    then show ?thesis by (simp add: verify_api_key_def q_hash Let_def)
  next
    assume "cached_id r' ?h = Some (key_id ?row)"
    then show ?thesis by (simp add: verify_api_key_def q_id Let_def)
  qed
qed

lemma cache_key_inj: "cache_key a = cache_key b \<Longrightarrow> a = b"
  by (simp add: cache_key_def)

lemma created_only_mono:
  assumes a: "created_only sha256 db r secrets" and sub: "secrets \<subseteq> secrets'"
  shows "created_only sha256 db r secrets'"
proof -
  from sub have m1: "sha256 ` secrets \<subseteq> sha256 ` secrets'" by (rule image_mono)
  then have m2: "cache_key ` sha256 ` secrets \<subseteq> cache_key ` sha256 ` secrets'"
    by (rule image_mono)
  from a have "key_hash ` set db \<subseteq> sha256 ` secrets" by (simp add: created_only_def)
  then have k: "key_hash ` set db \<subseteq> sha256 ` secrets'" using m1 by (rule subset_trans)
  show ?thesis
  proof (cases r)
    case None
    with k show ?thesis by (simp add: created_only_def)
  next
    case (Some c)
    with a have "dom (entries c) \<subseteq> cache_key ` sha256 ` secrets"
      by (simp add: created_only_def)
    then have "dom (entries c) \<subseteq> cache_key ` sha256 ` secrets'"
      using m2 by (rule subset_trans)
    with k Some show ?thesis by (simp add: created_only_def)
  qed
qed

lemma created_only_db:
  "created_only sha256 db r secrets \<Longrightarrow> map key_hash db' = map key_hash db \<Longrightarrow>
   created_only sha256 db' r secrets"
proof -
  assume a: "created_only sha256 db r secrets" and m: "map key_hash db' = map key_hash db"
  have "key_hash ` set db' = set (map key_hash db')" by simp
  also have "\<dots> = key_hash ` set db" unfolding m by simp
  finally show ?thesis using a by (simp add: created_only_def)
qed

lemma created_only_store:
  assumes "created_only sha256 db r secrets" and "h \<in> sha256 ` secrets"
  shows "created_only sha256 db (cache_store r h k) secrets"
proof (cases r)
  case None
  with assms show ?thesis by (simp add: created_only_def cache_store_def)
next
  case (Some c)
  with assms(1) have d: "dom (entries c) \<subseteq> cache_key ` sha256 ` secrets"
    and k: "key_hash ` set db \<subseteq> sha256 ` secrets"
    by (simp_all add: created_only_def)
  show ?thesis
  proof (cases "down c")
    case True
    with Some assms(1) show ?thesis by (simp add: cache_store_def)
  next
    case False
    from assms(2) have "cache_key h \<in> cache_key ` sha256 ` secrets" by (rule imageI)
    with d have "dom ((entries c)(cache_key h \<mapsto> cache_value k)) \<subseteq> cache_key ` sha256 ` secrets"
      by simp
    with k Some False show ?thesis by (simp add: created_only_def cache_store_def)
  qed
qed

lemma verify_cache:
  assumes "verify_api_key sha256 db r k = (res, r')"
  shows "r' = r \<or> (\<exists>row \<in> set db. key_hash row = sha256 k \<and> r' = cache_store r (sha256 k) row)"
proof (cases "cached_id r (sha256 k)")
  case (Some kid)
  with assms show ?thesis by (simp add: verify_api_key_def)
next
  case None
  show ?thesis
  proof (cases "query_by_hash_active db (sha256 k)")
    case n: None
    with None assms show ?thesis by (simp add: verify_api_key_def Let_def)
  next
    case (Some row)
    then have "row \<in> set db" "key_hash row = sha256 k"
      unfolding query_by_hash_active_def find_Some_iff by auto
    moreover from None Some assms have "r' = cache_store r (sha256 k) row"
      by (simp add: verify_api_key_def Let_def)
    ultimately show ?thesis by blast
  qed
qed

lemma created_only_verify:
  assumes "created_only sha256 db r secrets" and "verify_api_key sha256 db r k = (res, r')"
  shows "created_only sha256 db r' secrets"
proof -
  from verify_cache [OF assms(2)] show ?thesis
  proof
    assume "r' = r"
    with assms(1) show ?thesis by simp
  next
    assume "\<exists>row \<in> set db. key_hash row = sha256 k \<and> r' = cache_store r (sha256 k) row"
    then obtain row where row: "row \<in> set db" "key_hash row = sha256 k"
        "r' = cache_store r (sha256 k) row" by blast
    from row(1) have "key_hash row \<in> key_hash ` set db" by (rule imageI)
    with assms(1) have "sha256 k \<in> sha256 ` secrets"
      unfolding row(2) [symmetric] by (auto simp: created_only_def)
    from created_only_store [OF assms(1) this] show ?thesis unfolding row(3) .
  qed
qed

lemma increment_hashes: "map key_hash (snd (increment_usage now db obj)) = map key_hash db"
  by (simp add: increment_usage_def Let_def)

lemma delete_hashes:
  "delete_api_key db kid current_key = Inr db' \<Longrightarrow> map key_hash db' = map key_hash db"
proof -
  assume "delete_api_key db kid current_key = Inr db'"
  then have "db' = map (\<lambda>row. if key_id row = kid then row\<lparr>is_active := False\<rparr> else row) db"
    by (rule delete_Inr)
  then show ?thesis by simp
qed

lemma reachable_created_only:
  "reachable sha256 pfx db r secrets \<Longrightarrow> created_only sha256 db r secrets"
proof (induction rule: reachable.induct)
  case start_without_cache
  show ?case by (simp add: created_only_def)
next
  case (start_with_cache d)
  show ?case by (simp add: created_only_def)
next
  case (created db r secrets now request token u outcome db' r')
  let ?row = "created_row sha256 pfx now request token u"
  note c = create_stored [OF created.hyps(2) created.hyps(3)]
  have sub: "secrets \<subseteq> insert (pfx @ token) secrets" by blast
  from created_only_mono [OF created.IH sub]
  have old: "created_only sha256 db r (insert (pfx @ token) secrets)" .
  have h: "sha256 (pfx @ token) \<in> sha256 ` insert (pfx @ token) secrets"
    by simp
  from created_only_store [OF old h]
  have cache: "created_only sha256 db r' (insert (pfx @ token) secrets)"
    unfolding c(3) .
  then have "key_hash ` set db \<subseteq> sha256 ` insert (pfx @ token) secrets"
    by (simp add: created_only_def)
  with h have "key_hash ` set db' \<subseteq> sha256 ` insert (pfx @ token) secrets"
    unfolding c(2) by (simp add: created_row_fields)
  with cache show ?case by (simp add: created_only_def)
next
  case (verified db r secrets k res r')
  from created_only_verify [OF verified.IH verified.hyps(2)] show ?case .
next
  case (authenticated db r secrets now authorization api_key headers_get obj db' r')
  from dep_Inr [OF authenticated.hyps(2)]
  obtain v row where m: "verify_api_key sha256 db r v = (Some row, r')"
    and d: "db' = snd (increment_usage now db (load row))"
    by auto
  from created_only_verify [OF authenticated.IH m]
  have "created_only sha256 db r' secrets" .
  then show ?case unfolding d by (rule created_only_db) (rule increment_hashes)
next
  case (used db r secrets now obj obj' db')
  from used.hyps(2) have d: "db' = snd (increment_usage now db obj)" by simp
  from used.IH show ?case unfolding d by (rule created_only_db) (rule increment_hashes)
next
  case (revoked db r secrets kid current_key db')
  from revoked.IH show ?case
    by (rule created_only_db) (rule delete_hashes [OF revoked.hyps(2)])
next
  case (cache_outage db c secrets d)
  then show ?case by (simp add: created_only_def)
next
  case (cache_expiry db c secrets k)
  then have "dom (entries c) \<subseteq> cache_key ` sha256 ` secrets"
    and k: "key_hash ` set db \<subseteq> sha256 ` secrets"
    by (simp_all add: created_only_def)
  then have "dom ((entries c)(k := None)) \<subseteq> cache_key ` sha256 ` secrets"
    by auto
  with k show ?case by (simp add: created_only_def)
qed

lemma unknown_secret_rejected:
  assumes inv: "created_only sha256 db r secrets" and new: "sha256 k \<notin> sha256 ` secrets"
  shows "verify_api_key sha256 db r k = (None, r)"
proof -
  have no_row: "query_by_hash_active db (sha256 k) = None"
  proof -
    have "\<forall>row \<in> set db. key_hash row \<noteq> sha256 k"
    proof
      fix row assume "row \<in> set db"
      then have "key_hash row \<in> key_hash ` set db" by (rule imageI)
      with inv have "key_hash row \<in> sha256 ` secrets" by (auto simp: created_only_def)
      with new show "key_hash row \<noteq> sha256 k" by metis
    qed
    then show ?thesis unfolding query_by_hash_active_def find_None_iff by blast
  qed
  have no_entry: "cached_id r (sha256 k) = None"
  proof (cases r)
    case None
    then show ?thesis by (simp add: cached_id_def)
  next
    case (Some c)
    have "entries c (cache_key (sha256 k)) = None"
    proof (rule ccontr)
      assume "entries c (cache_key (sha256 k)) \<noteq> None"
      then have "cache_key (sha256 k) \<in> dom (entries c)" by (simp add: dom_def)
      with inv Some have "cache_key (sha256 k) \<in> cache_key ` sha256 ` secrets"
        by (auto simp: created_only_def)
      then obtain h where "h \<in> sha256 ` secrets" "cache_key (sha256 k) = cache_key h" by blast
      with cache_key_inj have "sha256 k \<in> sha256 ` secrets" by metis
      with new show False by simp
    qed
    with Some show ?thesis by (simp add: cached_id_def)
  qed
  from no_row no_entry show ?thesis by (simp add: verify_api_key_def Let_def)
qed

text \<open>
  C3. In a state the service can reach, when \<open>create_api_key\<close> succeeds, verifying the
  raw secret it returned, on the table and the cache it left, succeeds and finds a record
  with the identifier of the response; and verifying a secret whose hash is the hash of no
  secret created so far fails.
\<close>

theorem create_then_verify:
  assumes "reachable sha256 pfx db r secrets"
    and "create_api_key sha256 pfx now db r request token u = (Inr resp, db', r')"
  shows "(\<exists>found. fst (verify_api_key sha256 db' r' (resp_key resp)) = Some found \<and>
            key_id found = resp_id resp) \<and>
         (\<forall>k. sha256 k \<notin> sha256 ` insert (resp_key resp) secrets \<longrightarrow>
            fst (verify_api_key sha256 db' r' k) = None)"
proof
  have ok: "Inr resp \<noteq> (Inl IntegrityError :: create_error + APIKeyResponse)" by simp
  from verify_after_create [OF assms(2) ok] create_returned [OF assms(2)]
  show "\<exists>found. fst (verify_api_key sha256 db' r' (resp_key resp)) = Some found \<and>
            key_id found = resp_id resp"
    by simp
next
  have ok: "Inr resp \<noteq> (Inl IntegrityError :: create_error + APIKeyResponse)" by simp
  from assms ok have "reachable sha256 pfx db' r' (insert (pfx @ token) secrets)"
    by (rule reachable.created)
  then have "reachable sha256 pfx db' r' (insert (resp_key resp) secrets)"
    unfolding create_returned(1) [OF assms(2)] .
  then have inv: "created_only sha256 db' r' (insert (resp_key resp) secrets)"
    by (rule reachable_created_only)
  show "\<forall>k. sha256 k \<notin> sha256 ` insert (resp_key resp) secrets \<longrightarrow>
            fst (verify_api_key sha256 db' r' k) = None"
  proof (intro allI impI)
    fix k assume "sha256 k \<notin> sha256 ` insert (resp_key resp) secrets"
    from unknown_secret_rejected [OF inv this]
    show "fst (verify_api_key sha256 db' r' k) = None" by simp
  qed
qed

text \<open>
  A request without a description: the row is stored and the cache written, no secret is
  returned, and the secret that was generated verifies.
\<close>

lemma example_create_without_description:
  "create_api_key example_sha256 ''llm-router-'' 0 [] None (APIKeyRequest ''bob'' None)
     ''xyz'' 1 =
   (Inl ValidationError,
    [created_row example_sha256 ''llm-router-'' 0 (APIKeyRequest ''bob'' None) ''xyz'' 1],
    None)"
  "fst (verify_api_key example_sha256
          [created_row example_sha256 ''llm-router-'' 0 (APIKeyRequest ''bob'' None) ''xyz'' 1]
          None ''llm-router-xyz'') =
   Some (created_row example_sha256 ''llm-router-'' 0 (APIKeyRequest ''bob'' None) ''xyz'' 1)"
  by (simp_all add: create_api_key_eq verify_api_key_def cached_id_def cache_store_def
      query_by_hash_active_def created_row_def Let_def)

lemma example_create:
  "create_api_key example_sha256 ''llm-router-'' 0 [] (Some example_cache_empty)
     (APIKeyRequest ''alice'' (Some ''test'')) ''abc'' 0 =
   (Inr example_response, [example_created], example_cache_filled)"
  by (simp add: create_api_key_eq example_response_def example_created_def
      example_cache_filled_def created_row_fields)

theorem create_then_verify_witness:
  "reachable example_sha256 ''llm-router-'' [] (Some example_cache_empty) {} \<and>
   create_api_key example_sha256 ''llm-router-'' 0 [] (Some example_cache_empty)
     (APIKeyRequest ''alice'' (Some ''test'')) ''abc'' 0 =
   (Inr example_response, [example_created], example_cache_filled) \<and>
   (\<exists>found. fst (verify_api_key example_sha256 [example_created] example_cache_filled
                   ''llm-router-abc'') = Some found \<and>
            key_id found = resp_id example_response) \<and>
   fst (verify_api_key example_sha256 [example_created] example_cache_filled
          ''llm-router-abd'') = None"
proof -
  have h1: "reachable example_sha256 ''llm-router-'' [] (Some example_cache_empty) {}"
    unfolding example_cache_empty_def by (rule reachable.start_with_cache)
  have key: "resp_key example_response = ''llm-router-abc''"
    by (simp add: example_response_def)
  have other: "example_sha256 ''llm-router-abd'' \<notin>
      example_sha256 ` insert (resp_key example_response) {}"
    by (simp add: key example_sha256_def)
  from create_then_verify [OF h1 example_create] other key
  have "(\<exists>found. fst (verify_api_key example_sha256 [example_created] example_cache_filled
                   ''llm-router-abc'') = Some found \<and>
            key_id found = resp_id example_response) \<and>
        fst (verify_api_key example_sha256 [example_created] example_cache_filled
          ''llm-router-abd'') = None"
    by metis
  with h1 example_create show ?thesis by blast
qed

section \<open>Verifications by several callers\<close>

text \<open>
  A successful pass through the dependency is a \<open>Load\<close> followed by a \<open>Commit\<close> of the
  same caller, for the secret that the header carries.
\<close>

lemma verification_is_load_then_commit:
  assumes "get_current_api_key sha256 now db r authorization api_key headers_get =
    Inr (obj, db', r')"
  shows "\<exists>k. run sha256 now k (db, r, held) [Load i, Commit i] = (db', r', held(i := None))"
proof -
  from dep_Inr [OF assms] obtain v row where
    v: "verify_api_key sha256 db r v = (Some row, r')" and a: "is_active row"
    and d: "db' = snd (increment_usage now db (load row))"
    by auto
  from v a have "run sha256 now v (db, r, held) [Load i, Commit i] =
      (snd (increment_usage now db (load row)), r', held(i := None))"
    by (simp add: run_def)
  with d show ?thesis by blast
qed

lemma split_once_Some:
  "split_once c s = Some (a, b) \<Longrightarrow> s = a @ c # b \<and> c \<notin> set a"
proof (induction s arbitrary: a)
  case Nil
  then show ?case by simp
next
  case (Cons x xs)
  show ?case
  proof (cases "x = c")
    case True
    with Cons.prems show ?thesis by simp
  next
    case False
    with Cons.prems obtain a' where s: "split_once c xs = Some (a', b)" and a: "a = x # a'"
      by (auto split: option.splits)
    from Cons.IH [OF s] a False show ?thesis by simp
  qed
qed

lemma unpack3_Some:
  assumes "unpack3 s = Some (a, b, d)"
  shows "s = a @ CHR '':'' # b @ CHR '':'' # d" and "CHR '':'' \<notin> set a"
    and "CHR '':'' \<notin> set b"
proof -
  obtain a1 rest where s1: "split_once (CHR '':'') s = Some (a1, rest)"
    using assms by (cases "split_once (CHR '':'') s") (auto simp: unpack3_def numeral_2_eq_2)
  obtain b1 d1 where s2: "split_once (CHR '':'') rest = Some (b1, d1)"
    using assms s1
    by (cases "split_once (CHR '':'') rest") (auto simp: unpack3_def numeral_2_eq_2)
  from assms s1 s2 have eq: "a = a1" "b = b1" "d = d1"
    by (simp_all add: unpack3_def numeral_2_eq_2)
  from split_once_Some [OF s1] split_once_Some [OF s2] eq
  show "s = a @ CHR '':'' # b @ CHR '':'' # d" "CHR '':'' \<notin> set a" "CHR '':'' \<notin> set b"
    by simp_all
qed

lemma no_colon_filter: "CHR '':'' \<notin> set s \<Longrightarrow> filter (\<lambda>x. x = CHR '':'') s = []"
  by (auto simp: filter_empty_conv)

lemma cached_flag_True:
  assumes "unpack3 (cache_value k) = Some (a, b, ''True'')"
  shows "a = key_id k"
proof -
  note u = unpack3_Some [OF assms]
  let ?colons = "\<lambda>s. length (filter (\<lambda>x. x = CHR '':'') s)"
  have "?colons (a @ CHR '':'' # b @ CHR '':'' # ''True'') = 2"
    using u(2) u(3) by (simp add: no_colon_filter)
  with u(1) have two: "?colons (cache_value k) = 2" by simp
  have "?colons (cache_value k) =
      ?colons (key_id k) + ?colons (name k) + ?colons (str_bool (is_active k)) + 2"
    by (simp add: cache_value_def)
  with two have "?colons (key_id k) = 0" by simp
  then have free: "CHR '':'' \<notin> set (key_id k)"
    by (auto simp: filter_empty_conv)
  have "split_once (CHR '':'') (cache_value k) =
      Some (key_id k, name k @ '':'' @ str_bool (is_active k))"
    unfolding cache_value_shape using free by (rule split_once_prefix)
  moreover have "split_once (CHR '':'') (cache_value k) = Some (a, b @ CHR '':'' # ''True'')"
    unfolding u(1) using u(2) by (rule split_once_prefix)
  ultimately show ?thesis by simp
qed

lemma cached_id_written:
  assumes "entries c (cache_key h) = Some (cache_value k)"
  shows "cached_id (Some c) h = None \<or> cached_id (Some c) h = Some (key_id k)"
proof (cases "unpack3 (cache_value k)")
  case None
  with assms show ?thesis by (simp add: cached_id_def)
next
  case (Some parts)
  obtain a b d where parts: "parts = (a, b, d)" by (cases parts)
  show ?thesis
  proof (cases "d = ''True''")
    case True
    with Some parts have "a = key_id k" by (intro cached_flag_True [of k a b]) simp
    with assms Some parts show ?thesis by (simp add: cached_id_def)
  next
    case False
    with assms Some parts show ?thesis by (simp add: cached_id_def)
  qed
qed

lemma cached_id_stored:
  "cached_id (cache_store r h k) h = None \<or> cached_id (cache_store r h k) h = Some (key_id k)"
proof (cases r)
  case None
  then show ?thesis by (simp add: cache_store_def cached_id_def)
next
  case (Some c)
  show ?thesis
  proof (cases "down c")
    case True
    with Some show ?thesis by (simp add: cache_store_def cached_id_def)
  next
    case False
    let ?c' = "c\<lparr>entries := (entries c)(cache_key h \<mapsto> cache_value k)\<rparr>"
    have store: "cache_store r h k = Some ?c'"
      using Some False by (simp add: cache_store_def)
    have "entries ?c' (cache_key h) = Some (cache_value k)" by simp
    from cached_id_written [OF this] show ?thesis unfolding store .
  qed
qed

lemma find_by_id_distinct:
  "distinct (map key_id db) \<Longrightarrow> row \<in> set db \<Longrightarrow>
   find (\<lambda>x. key_id x = key_id row) db = Some row"
proof (induction db)
  case Nil
  then show ?case by simp
next
  case (Cons x xs)
  show ?case
  proof (cases "x = row")
    case True
    then show ?thesis by simp
  next
    case False
    with Cons.prems have mem: "row \<in> set xs" by simp
    then have "key_id row \<in> set (map key_id xs)" by simp
    with Cons.prems(1) have "key_id x \<noteq> key_id row" by auto
    moreover from Cons.prems(1) have "distinct (map key_id xs)" by simp
    ultimately show ?thesis using Cons.IH mem by simp
  qed
qed

lemma find_map_same:
  "(\<And>x. P (f x) = P x) \<Longrightarrow> find P (map f xs) = map_option f (find P xs)"
  by (induction xs) simp_all

lemma load_fields:
  "key_id (load row) = key_id row" "usage_count (load row) = usage_count row"
  by (simp_all add: load_def APIKey.defs)

lemma commit_table:
  "snd (increment_usage now db (load row)) =
     map (\<lambda>x. if key_id x = key_id row then x\<lparr>usage_count := usage_count row + 1\<rparr> else x) db"
  by (simp add: increment_usage_def Let_def load_fields)

lemma commit_query:
  assumes "query_by_hash_active db h = Some row"
  shows "query_by_hash_active (snd (increment_usage now db (load row))) h =
           Some (row\<lparr>usage_count := usage_count row + 1\<rparr>)"
proof -
  let ?f = "\<lambda>x. if key_id x = key_id row then x\<lparr>usage_count := usage_count row + 1\<rparr> else x"
  have same: "\<And>x. (key_hash (?f x) = h \<and> is_active (?f x)) = (key_hash x = h \<and> is_active x)"
    by simp
  have "find (\<lambda>x. key_hash x = h \<and> is_active x) (map ?f db) =
      map_option ?f (find (\<lambda>x. key_hash x = h \<and> is_active x) db)"
    using same by (rule find_map_same)
  with assms show ?thesis
    unfolding commit_table query_by_hash_active_def by simp
qed

lemma load_result:
  assumes act: "query_by_hash_active db (sha256 k) = Some row"
    and dist: "distinct (map key_id db)"
    and cache: "cached_id r (sha256 k) = None \<or> cached_id r (sha256 k) = Some (key_id row)"
  shows "\<exists>r'. verify_api_key sha256 db r k = (Some row, r') \<and> is_active row \<and>
           (cached_id r' (sha256 k) = None \<or> cached_id r' (sha256 k) = Some (key_id row))"
proof -
  from act have row: "row \<in> set db" "is_active row"
    unfolding query_by_hash_active_def find_Some_iff by auto
  from cache show ?thesis
  proof
    assume miss: "cached_id r (sha256 k) = None"
    then have "verify_api_key sha256 db r k = (Some row, cache_store r (sha256 k) row)"
      using act by (simp add: verify_api_key_def Let_def)
    with row(2) cached_id_stored [of r "sha256 k" row] show ?thesis by simp
  next
    assume hit: "cached_id r (sha256 k) = Some (key_id row)"
    have "query_by_id db (key_id row) = Some row"
      unfolding query_by_id_def using dist row(1) by (rule find_by_id_distinct)
    with hit have "verify_api_key sha256 db r k = (Some row, r)"
      by (simp add: verify_api_key_def)
    with row(2) hit show ?thesis by simp
  qed
qed

lemma one_verification:
  assumes act: "query_by_hash_active db (sha256 k) = Some row"
    and dist: "distinct (map key_id db)"
    and cache: "cached_id r (sha256 k) = None \<or> cached_id r (sha256 k) = Some (key_id row)"
  shows "\<exists>db' r' row'.
      run sha256 now k (db, r, Map.empty) [Load i, Commit i] = (db', r', Map.empty) \<and>
      query_by_hash_active db' (sha256 k) = Some row' \<and> key_id row' = key_id row \<and>
      usage_count row' = usage_count row + 1 \<and> distinct (map key_id db') \<and>
      (cached_id r' (sha256 k) = None \<or> cached_id r' (sha256 k) = Some (key_id row'))"
proof -
  from load_result [of db sha256 k row r, OF assms] obtain r' where
    v: "verify_api_key sha256 db r k = (Some row, r')" and a: "is_active row"
    and c: "cached_id r' (sha256 k) = None \<or> cached_id r' (sha256 k) = Some (key_id row)"
    by blast
  let ?db' = "snd (increment_usage now db (load row))"
  let ?row' = "row\<lparr>usage_count := usage_count row + 1\<rparr>"
  have "run sha256 now k (db, r, Map.empty) [Load i, Commit i] = (?db', r', Map.empty)"
    using v a by (simp add: run_def)
  moreover have "query_by_hash_active ?db' (sha256 k) = Some ?row'"
    using act by (rule commit_query)
  moreover have "map key_id ?db' = map key_id db"
    unfolding commit_table by simp
  then have "distinct (map key_id ?db')" using dist by simp
  moreover have "key_id ?row' = key_id row" "usage_count ?row' = usage_count row + 1"
    by simp_all
  ultimately show ?thesis using c by auto
qed

lemma sequential_Suc: "sequential (Suc n) = sequential n @ [Load n, Commit n]"
  by (simp add: sequential_def)

lemma run_append:
  "run sha256 now k w (xs @ ys) = run sha256 now k (run sha256 now k w xs) ys"
  by (simp add: run_def)

lemma sequential_verifications:
  assumes act: "query_by_hash_active db (sha256 k) = Some row"
    and dist: "distinct (map key_id db)"
    and cache: "cached_id r (sha256 k) = None \<or> cached_id r (sha256 k) = Some (key_id row)"
  shows "\<exists>db' r' row'.
      run sha256 now k (db, r, Map.empty) (sequential n) = (db', r', Map.empty) \<and>
      query_by_hash_active db' (sha256 k) = Some row' \<and> key_id row' = key_id row \<and>
      usage_count row' = usage_count row + int n \<and> distinct (map key_id db') \<and>
      (cached_id r' (sha256 k) = None \<or> cached_id r' (sha256 k) = Some (key_id row'))"
proof (induction n)
  case 0
  from assms show ?case by (simp add: sequential_def run_def)
next
  case (Suc n)
  then obtain db1 r1 row1 where
    run1: "run sha256 now k (db, r, Map.empty) (sequential n) = (db1, r1, Map.empty)"
    and q1: "query_by_hash_active db1 (sha256 k) = Some row1"
    and id1: "key_id row1 = key_id row"
    and n1: "usage_count row1 = usage_count row + int n"
    and d1: "distinct (map key_id db1)"
    and c1: "cached_id r1 (sha256 k) = None \<or> cached_id r1 (sha256 k) = Some (key_id row1)"
    by blast
  from one_verification [of db1 sha256 k row1 r1 now n, OF q1 d1 c1] obtain db2 r2 row2 where
    run2: "run sha256 now k (db1, r1, Map.empty) [Load n, Commit n] = (db2, r2, Map.empty)"
    and q2: "query_by_hash_active db2 (sha256 k) = Some row2"
    and id2: "key_id row2 = key_id row1"
    and n2: "usage_count row2 = usage_count row1 + 1"
    and d2: "distinct (map key_id db2)"
    and c2: "cached_id r2 (sha256 k) = None \<or> cached_id r2 (sha256 k) = Some (key_id row2)"
    by blast
  have "run sha256 now k (db, r, Map.empty) (sequential (Suc n)) = (db2, r2, Map.empty)"
    unfolding sequential_Suc run_append run1 run2 ..
  moreover from id1 id2 have "key_id row2 = key_id row" by simp
  moreover from n1 n2 have "usage_count row2 = usage_count row + int (Suc n)" by simp
  ultimately show ?case using q2 d2 c2 by blast
qed

lemma commit_writes_held_count:
  assumes "held i = Some obj"
  shows "map usage_count (fst (step sha256 now k (db, r, held) (Commit i))) =
           map (\<lambda>row. if key_id row = key_id obj then usage_count obj + 1
                       else usage_count row) db"
  using assms by (simp add: increment_usage_def Let_def)

text \<open>
  C5, as the code has it. When \<open>n\<close> callers verify an active key one after the other (each
  loads the record after the one before has committed), every one of them commits and the
  key's \<open>usage_count\<close> ends at its former value plus \<open>n\<close>. The increment is a
  read-modify-write of the application: a commit writes the count that the caller's object
  holds plus one, whatever the row holds by then.
\<close>

theorem sequential_verifications_count:
  "(query_by_hash_active db (sha256 k) = Some row \<and> distinct (map key_id db) \<and>
    (cached_id r (sha256 k) = None \<or> cached_id r (sha256 k) = Some (key_id row))
      \<longrightarrow> (\<exists>db' r' row'.
             run sha256 now k (db, r, Map.empty) (sequential n) = (db', r', Map.empty) \<and>
             query_by_hash_active db' (sha256 k) = Some row' \<and> key_id row' = key_id row \<and>
             usage_count row' = usage_count row + int n)) \<and>
   (held i = Some obj
      \<longrightarrow> map usage_count (fst (step sha256 now k (db0, r0, held) (Commit i))) =
            map (\<lambda>x. if key_id x = key_id obj then usage_count obj + 1 else usage_count x)
              db0)"
proof (intro conjI impI)
  assume "query_by_hash_active db (sha256 k) = Some row \<and> distinct (map key_id db) \<and>
    (cached_id r (sha256 k) = None \<or> cached_id r (sha256 k) = Some (key_id row))"
  then have "query_by_hash_active db (sha256 k) = Some row" "distinct (map key_id db)"
    "cached_id r (sha256 k) = None \<or> cached_id r (sha256 k) = Some (key_id row)"
    by simp_all
  from sequential_verifications [of db sha256 k row r now n, OF this]
  show "\<exists>db' r' row'.
      run sha256 now k (db, r, Map.empty) (sequential n) = (db', r', Map.empty) \<and>
      query_by_hash_active db' (sha256 k) = Some row' \<and> key_id row' = key_id row \<and>
      usage_count row' = usage_count row + int n"
    by blast
next
  assume "held i = Some obj"
  then show "map usage_count (fst (step sha256 now k (db0, r0, held) (Commit i))) =
      map (\<lambda>x. if key_id x = key_id obj then usage_count obj + 1 else usage_count x) db0"
    by (rule commit_writes_held_count)
qed

text \<open>
  Two callers verify the example key, whose count is 0. When both load the record before
  either commits, both commit and the count ends at 1; one after the other, it ends at 2.
\<close>

theorem concurrent_verifications_lose_update:
  "map usage_count (fst (run example_sha256 50 ''llm-router-abc'' example_world
      [Load 0, Load 1, Commit 0, Commit 1])) = [1] \<and>
   map usage_count (fst (run example_sha256 50 ''llm-router-abc'' example_world
      [Load 0, Commit 0, Load 1, Commit 1])) = [2]"
  by (simp add: run_def example_world_def verify_api_key_def cached_id_def
      query_by_hash_active_def cache_store_def increment_usage_def Let_def load_fields
      example_key_def)

theorem sequential_verifications_count_witness:
  "query_by_hash_active [example_key] (example_sha256 ''llm-router-abc'') = Some example_key \<and>
   distinct (map key_id [example_key]) \<and>
   cached_id None (example_sha256 ''llm-router-abc'') = None \<and>
   (\<exists>db' r' row'.
      run example_sha256 50 ''llm-router-abc'' ([example_key], None, Map.empty)
        (sequential 2) = (db', r', Map.empty) \<and>
      query_by_hash_active db' (example_sha256 ''llm-router-abc'') = Some row' \<and>
      key_id row' = key_id example_key \<and>
      usage_count row' = usage_count example_key + int 2) \<and>
   map usage_count (fst (step example_sha256 50 ''llm-router-abc''
      ([example_key\<lparr>usage_count := 5\<rparr>], None, [0 \<mapsto> load example_key]) (Commit 0))) = [1]"
proof -
  have h: "query_by_hash_active [example_key] (example_sha256 ''llm-router-abc'') =
        Some example_key \<and>
      distinct (map key_id [example_key]) \<and>
      (cached_id None (example_sha256 ''llm-router-abc'') = None \<or>
       cached_id None (example_sha256 ''llm-router-abc'') = Some (key_id example_key))"
    by (simp add: query_by_hash_active_def example_key_def cached_id_def)
  have held: "[0 \<mapsto> load example_key] 0 = Some (load example_key)" by simp
  have c: "cached_id None (example_sha256 ''llm-router-abc'') = None"
    by (simp add: cached_id_def)
  from sequential_verifications_count [of "[example_key]" example_sha256 "''llm-router-abc''"
      example_key None 50 2 "[0 \<mapsto> load example_key]" 0 "load example_key"
      "[example_key\<lparr>usage_count := 5\<rparr>]" None] h held
  have "(\<exists>db' r' row'.
      run example_sha256 50 ''llm-router-abc'' ([example_key], None, Map.empty)
        (sequential 2) = (db', r', Map.empty) \<and>
      query_by_hash_active db' (example_sha256 ''llm-router-abc'') = Some row' \<and>
      key_id row' = key_id example_key \<and>
      usage_count row' = usage_count example_key + int 2) \<and>
    map usage_count (fst (step example_sha256 50 ''llm-router-abc''
      ([example_key\<lparr>usage_count := 5\<rparr>], None, [0 \<mapsto> load example_key]) (Commit 0))) =
      map (\<lambda>x. if key_id x = key_id (load example_key) then usage_count (load example_key) + 1
               else usage_count x) [example_key\<lparr>usage_count := 5\<rparr>]"
    by blast
  moreover have "map (\<lambda>x. if key_id x = key_id (load example_key)
        then usage_count (load example_key) + 1 else usage_count x)
      [example_key\<lparr>usage_count := 5\<rparr>] = [1]"
    by (simp add: load_fields example_key_def)
  ultimately show ?thesis using h c by simp
qed

end
